theory Spec2Isabelle
  imports Main
begin

section \<open>JavaScript values\<close>

text \<open>
  A JavaScript string is a sequence of UTF-16 code units. The handler distinguishes the
  ASCII comma (44) from the full-width comma U+FF0C (65292), so code units are kept as
  numbers. \<open>ascii\<close> turns an ASCII literal into its code units.
\<close>

type_synonym jsstring = "nat list"

definition ascii :: "string \<Rightarrow> jsstring" where
  "ascii s = map of_char s"

text \<open>
  The values \<^verbatim>\<open>JSON.parse\<close> can produce, and \<^verbatim>\<open>undefined\<close> (the value of an absent
  property). A number is carried by the text \<^verbatim>\<open>Number.prototype.toString\<close> gives for it
  (\<open>2580\<close>, \<open>2.5\<close>, \<open>1e+21\<close>, \<open>Infinity\<close>): the handler observes a number
  only through that text and through its truthiness, and both zeros render as \<open>0\<close>.
  An object is the list of its own properties.
\<close>

datatype json =
    JUndefined
  | JNull
  | JBool bool
  | JNum jsstring
  | JStr jsstring
  | JArr "json list"
  | JObj "(jsstring \<times> json) list"

text \<open>
  The exceptions of the engine. A \<^verbatim>\<open>TypeError\<close> is thrown by reading a property of
  \<^verbatim>\<open>null\<close> and by calling what is not a function. A \<^verbatim>\<open>RangeError\<close> is thrown when the
  call stack is exhausted or a string grows beyond the engine's limit: those limits are
  the engine's, not the handler's, and the functions below have no bound on either, so
  they never throw it. Rendering an array is where an engine can reach them, and what is
  proved below about an outcome either assumes that the rendering returned or keeps to
  amounts that are not arrays.
\<close>

datatype js_error = TypeError | RangeError

text \<open>\<^verbatim>\<open>ToBoolean\<close>: what \<^verbatim>\<open>||\<close>, \<^verbatim>\<open>&&\<close>, \<^verbatim>\<open>!\<close> and \<^verbatim>\<open>filter\<close> test.\<close>

fun truthy :: "json \<Rightarrow> bool" where
  "truthy JUndefined = False"
| "truthy JNull = False"
| "truthy (JBool b) = b"
| "truthy (JNum r) = (r \<noteq> ascii ''0'' \<and> r \<noteq> ascii ''NaN'')"
| "truthy (JStr s) = (s \<noteq> [])"
| "truthy (JArr xs) = True"
| "truthy (JObj kvs) = True"

text \<open>\<^verbatim>\<open>a || b\<close>\<close>

definition js_or :: "json \<Rightarrow> json \<Rightarrow> json" where
  "js_or a b = (if truthy a then a else b)"

definition nullish :: "json \<Rightarrow> bool" where
  "nullish v = (v = JNull \<or> v = JUndefined)"

text \<open>
  \<^verbatim>\<open>v.k\<close> for a value \<open>v\<close> that is neither \<^verbatim>\<open>null\<close> nor \<^verbatim>\<open>undefined\<close>, and a
  key \<open>k\<close> that no built-in prototype defines (the normalizer reads \<open>storeName\<close>,
  \<open>date\<close>, \<open>total\<close>, \<open>categoryId\<close>, \<open>items\<close>, \<open>name\<close>, \<open>price\<close>): an own
  property of an object, \<^verbatim>\<open>undefined\<close> otherwise.
\<close>

definition property :: "json \<Rightarrow> jsstring \<Rightarrow> json" where
  "property v k =
     (case v of
        JObj kvs \<Rightarrow> (case map_of kvs k of Some x \<Rightarrow> x | None \<Rightarrow> JUndefined)
      | _ \<Rightarrow> JUndefined)"

text \<open>\<^verbatim>\<open>v.k\<close> for any value: reading a property of \<^verbatim>\<open>null\<close> or \<^verbatim>\<open>undefined\<close> throws.\<close>

definition get :: "json \<Rightarrow> jsstring \<Rightarrow> js_error + json" where
  "get v k = (if nullish v then Inl TypeError else Inr (property v k))"

text \<open>
  \<^verbatim>\<open>v.toString()\<close>. A string is itself, a number its rendering. An array joins its
  elements with commas, \<^verbatim>\<open>null\<close> and \<^verbatim>\<open>undefined\<close> elements as the empty string.
  A plain object gives \<open>[object Object]\<close>, unless it has an own property named
  \<open>toString\<close>: that property is a JSON value, not a function, and the call throws.
\<close>

fun toString :: "json \<Rightarrow> js_error + jsstring"
  and join :: "json list \<Rightarrow> js_error + jsstring" where
  "toString JUndefined = Inl TypeError"
| "toString JNull = Inl TypeError"
| "toString (JBool b) = Inr (if b then ascii ''true'' else ascii ''false'')"
| "toString (JNum r) = Inr r"
| "toString (JStr s) = Inr s"
| "toString (JArr xs) = join xs"
| "toString (JObj kvs) =
     (if ascii ''toString'' \<in> fst ` set kvs then Inl TypeError
      else Inr (ascii ''[object Object]''))"
| "join [] = Inr []"
| "join (x # xs) =
     (case (if x = JNull \<or> x = JUndefined then Inr [] else toString x) of
        Inl e \<Rightarrow> Inl e
      | Inr s \<Rightarrow>
          (if xs = [] then Inr s
           else case join xs of Inl e \<Rightarrow> Inl e | Inr t \<Rightarrow> Inr (s @ 44 # t)))"

section \<open>Numbers: \<^verbatim>\<open>parseInt\<close> and \<^verbatim>\<open>toLocaleString\<close>\<close>

text \<open>
  The Number values \<^verbatim>\<open>parseInt\<close> can return: \<^verbatim>\<open>NaN\<close>, an integer-valued double, the
  negative zero, and the two infinities.
\<close>

datatype number = NaN | NegZero | Fin int | Infinity | NegInfinity

definition isNaN :: "number \<Rightarrow> bool" where
  "isNaN x = (x = NaN)"

text \<open>
  Rounding a natural number to the nearest double (ties to even). Below \<open>2 ^ 53\<close> every
  natural number is a double. Above, a double is a 53-bit significand times
  \<open>2 ^ e\<close>, and a result of \<open>2 ^ 1024\<close> or more overflows (\<open>None\<close>).
\<close>

function ulp_exp :: "nat \<Rightarrow> nat" where
  "ulp_exp n = (if n < 2 ^ 53 then 0 else Suc (ulp_exp (n div 2)))"
  by pat_completeness auto
termination
  by (relation "measure id") auto

declare ulp_exp.simps [simp del]

definition round_nat :: "nat \<Rightarrow> nat option" where
  "round_nat n =
     (let e = ulp_exp n;
          q = n div 2 ^ e;
          r = n mod 2 ^ e;
          q' = (if 2 ^ e < 2 * r \<or> (2 * r = 2 ^ e \<and> odd q) then q + 1 else q);
          v = q' * 2 ^ e
      in if 2 ^ 1024 \<le> v then None else Some v)"

definition to_double :: "bool \<Rightarrow> nat \<Rightarrow> number" where
  "to_double neg m =
     (case round_nat m of
        None \<Rightarrow> (if neg then NegInfinity else Infinity)
      | Some v \<Rightarrow> Fin (if neg then - int v else int v))"

text \<open>The white space \<^verbatim>\<open>parseInt\<close> skips at the start of its argument.\<close>

definition isWhiteSpace :: "nat \<Rightarrow> bool" where
  "isWhiteSpace c =
     (c \<in> {9, 10, 11, 12, 13, 32, 160, 5760, 8232, 8233, 8239, 8287, 12288, 65279}
      \<or> (8192 \<le> c \<and> c \<le> 8202))"

definition isDigit :: "nat \<Rightarrow> bool" where
  "isDigit c = (48 \<le> c \<and> c \<le> 57)"

definition digits_value :: "jsstring \<Rightarrow> nat" where
  "digits_value ds = foldl (\<lambda>a c. 10 * a + (c - 48)) 0 ds"

text \<open>
  \<^verbatim>\<open>parseInt(s, 10)\<close>: skip leading white space, take an optional sign, then the longest
  run of decimal digits; no digit gives \<^verbatim>\<open>NaN\<close>, the value zero keeps the sign.
\<close>

definition parseInt :: "jsstring \<Rightarrow> number" where
  "parseInt s =
     (let t = dropWhile isWhiteSpace s;
          neg = (case t of [] \<Rightarrow> False | c # _ \<Rightarrow> c = 45);
          u = (case t of [] \<Rightarrow> [] | c # cs \<Rightarrow> if c = 43 \<or> c = 45 then cs else t);
          ds = takeWhile isDigit u
      in if ds = [] then NaN
         else if digits_value ds = 0 then (if neg then NegZero else Fin 0)
         else to_double neg (digits_value ds))"

text \<open>The decimal digits of a natural number.\<close>

fun digits :: "nat \<Rightarrow> jsstring" where
  "digits n = (if n < 10 then [48 + n] else digits (n div 10) @ [48 + n mod 10])"

declare digits.simps [simp del]

text \<open>Grouping by three from the right, on the reversed digits.\<close>

fun group_rev :: "jsstring \<Rightarrow> jsstring" where
  "group_rev (a # b # c # d # ds) = a # b # c # 44 # group_rev (d # ds)"
| "group_rev ds = ds"

definition grouped :: "jsstring \<Rightarrow> jsstring" where
  "grouped ds = rev (group_rev (rev ds))"

text \<open>
  The digits ICU prints for a double \<open>n\<close>. Below \<open>2 ^ 53\<close> they are the digits of
  \<open>n\<close>. Above, they are the shortest decimal that reads back as \<open>n\<close>, padded with
  zeros: for each number of significant digits \<open>p\<close>, from 1 to 17, the two multiples of
  \<open>10 ^ (len - p)\<close> around \<open>n\<close> are tried, the nearer one first (the even one on a tie).
\<close>

definition candidates :: "nat \<Rightarrow> nat \<Rightarrow> nat list" where
  "candidates n p =
     (let k = length (digits n) - p;
          lo = (n div 10 ^ k) * 10 ^ k;
          hi = lo + 10 ^ k
      in if 2 * (n - lo) < 10 ^ k \<or> (2 * (n - lo) = 10 ^ k \<and> even (n div 10 ^ k))
         then [lo, hi] else [hi, lo])"

definition shortest :: "nat \<Rightarrow> nat" where
  "shortest n =
     (if n < 2 ^ 53 then n
      else case List.find (\<lambda>c. round_nat c = Some n) (concat (map (candidates n) [1..<18])) of
             Some c \<Rightarrow> c
           | None \<Rightarrow> n)"

text \<open>\<^verbatim>\<open>x.toLocaleString('ja-JP')\<close> for the values \<^verbatim>\<open>parseInt\<close> returns.\<close>

definition toLocaleString :: "number \<Rightarrow> jsstring" where
  "toLocaleString x =
     (case x of
        NaN \<Rightarrow> ascii ''NaN''
      | NegZero \<Rightarrow> ascii ''-0''
      | Fin i \<Rightarrow> (if i < 0 then [45] else []) @ grouped (digits (shortest (nat \<bar>i\<bar>)))
      | Infinity \<Rightarrow> [8734]
      | NegInfinity \<Rightarrow> [45, 8734])"

section \<open>The clock\<close>

text \<open>
  The reading of the wall clock, and its rendering by
  \<^verbatim>\<open>toLocaleString('ja-JP', {year: 'numeric', month: 'long', day: 'numeric',
  hour: '2-digit', minute: '2-digit'})\<close>: year, U+5E74, month, U+6708, day, U+65E5, a space,
  hour, a colon, minute.
\<close>

record clock =
  year :: nat
  month :: nat
  day :: nat
  hour :: nat
  minute :: nat

definition two_digits :: "nat \<Rightarrow> jsstring" where
  "two_digits n = (if n < 10 then 48 # digits n else digits n)"

definition format_date :: "clock \<Rightarrow> jsstring" where
  "format_date now =
     digits (year now) @ [24180] @ digits (month now) @ [26376] @ digits (day now) @ [26085]
     @ [32] @ two_digits (hour now) @ [58] @ two_digits (minute now)"

section \<open>The normalization of the model's answer\<close>

text \<open>The placeholders U+5E97 U+8217 U+540D U+4E0D U+660E and U+5546 U+54C1.\<close>

definition unknown_store :: jsstring where
  "unknown_store = [24215, 33303, 21517, 19981, 26126]"

definition generic_item :: jsstring where
  "generic_item = [21830, 21697]"

definition categories :: "jsstring list" where
  "categories = map ascii [''food'', ''transport'', ''daily'', ''entertainment'',
     ''medical'', ''education'', ''other'']"

text \<open>\<^verbatim>\<open>s.replace(/[,\<dots>]/g, '')\<close> with the ASCII and the full-width comma.\<close>

definition strip_commas :: "jsstring \<Rightarrow> jsstring" where
  "strip_commas s = filter (\<lambda>c. c \<noteq> 44 \<and> c \<noteq> 65292) s"

text \<open>\<^verbatim>\<open>data.storeName\<close> is the first property read: it throws when \<open>data\<close> is \<^verbatim>\<open>null\<close>.\<close>

definition safeStoreName :: "json \<Rightarrow> js_error + json" where
  "safeStoreName data =
     (case get data (ascii ''storeName'') of
        Inl e \<Rightarrow> Inl e
      | Inr v \<Rightarrow> Inr (js_or v (JStr unknown_store)))"

definition safeDate :: "clock \<Rightarrow> json \<Rightarrow> json" where
  "safeDate now data = js_or (property data (ascii ''date'')) (JStr (format_date now))"

definition rawTotal :: "json \<Rightarrow> js_error + jsstring" where
  "rawTotal data =
     (case toString (js_or (property data (ascii ''total'')) (JStr (ascii ''0''))) of
        Inl e \<Rightarrow> Inl e
      | Inr s \<Rightarrow> Inr (strip_commas s))"

definition numericTotal :: "json \<Rightarrow> js_error + number" where
  "numericTotal data =
     (case rawTotal data of
        Inl e \<Rightarrow> Inl e
      | Inr raw \<Rightarrow> Inr (if isNaN (parseInt raw) then Fin 0 else parseInt raw))"

definition items :: "json \<Rightarrow> json list" where
  "items data = (case property data (ascii ''items'') of JArr xs \<Rightarrow> xs | _ \<Rightarrow> [])"

text \<open>The filter \<^verbatim>\<open>item && item.name\<close>.\<close>

definition named :: "json \<Rightarrow> bool" where
  "named item = (truthy item \<and> truthy (property item (ascii ''name'')))"

definition itemRaw :: "json \<Rightarrow> js_error + jsstring" where
  "itemRaw item =
     (case toString (js_or (property item (ascii ''price'')) (JStr (ascii ''0''))) of
        Inl e \<Rightarrow> Inl e
      | Inr s \<Rightarrow> Inr (strip_commas s))"

definition itemPrice :: "json \<Rightarrow> js_error + number" where
  "itemPrice item =
     (case itemRaw item of
        Inl e \<Rightarrow> Inl e
      | Inr raw \<Rightarrow> Inr (if isNaN (parseInt raw) then Fin 0 else parseInt raw))"

definition mapped :: "json \<Rightarrow> json \<Rightarrow> js_error + json" where
  "mapped data item =
     (case itemPrice item of
        Inl e \<Rightarrow> Inl e
      | Inr p \<Rightarrow>
          Inr (JObj
            [(ascii ''name'', property item (ascii ''name'')),
             (ascii ''price'', JStr (toLocaleString p)),
             (ascii ''categoryId'',
                js_or (property item (ascii ''categoryId''))
                  (js_or (property data (ascii ''categoryId'')) (JStr (ascii ''other''))))]))"

text \<open>\<^verbatim>\<open>xs.map(f)\<close> for a callback that can throw: the first exception ends the loop.\<close>

fun map_throwing :: "('a \<Rightarrow> 'e + 'b) \<Rightarrow> 'a list \<Rightarrow> 'e + 'b list" where
  "map_throwing f [] = Inr []"
| "map_throwing f (x # xs) =
     (case f x of
        Inl e \<Rightarrow> Inl e
      | Inr y \<Rightarrow> (case map_throwing f xs of Inl e \<Rightarrow> Inl e | Inr ys \<Rightarrow> Inr (y # ys)))"

definition mappedItems :: "json \<Rightarrow> js_error + json list" where
  "mappedItems data = map_throwing (mapped data) (filter named (items data))"

definition categoryId :: "json \<Rightarrow> json" where
  "categoryId data =
     (if truthy (property data (ascii ''categoryId''))
         \<and> property data (ascii ''categoryId'') \<in> set (map JStr categories)
      then property data (ascii ''categoryId'')
      else JStr (ascii ''other''))"

definition result :: "json \<Rightarrow> json \<Rightarrow> number \<Rightarrow> json \<Rightarrow> json list \<Rightarrow> json" where
  "result storeName_v date_v total_v category_v mapped_v =
     JObj
       [(ascii ''storeName'', storeName_v),
        (ascii ''date'', date_v),
        (ascii ''total'', JStr (toLocaleString total_v)),
        (ascii ''categoryId'', category_v),
        (ascii ''items'',
           JArr (if 0 < length mapped_v then mapped_v
                 else [JObj [(ascii ''name'', JStr generic_item),
                             (ascii ''price'', JStr (toLocaleString total_v)),
                             (ascii ''categoryId'', category_v)]]))]"

text \<open>
  Lines 127 to 175 of the handler: from the parsed answer \<open>data\<close> to the object sent
  back, or the exception thrown on the way.
\<close>

definition normalizeReceipt :: "clock \<Rightarrow> json \<Rightarrow> js_error + json" where
  "normalizeReceipt now data =
     (case safeStoreName data of
        Inl e \<Rightarrow> Inl e
      | Inr store \<Rightarrow>
          (case numericTotal data of
             Inl e \<Rightarrow> Inl e
           | Inr t \<Rightarrow>
               (case mappedItems data of
                  Inl e \<Rightarrow> Inl e
                | Inr ms \<Rightarrow> Inr (result store (safeDate now data) t (categoryId data) ms))))"

section \<open>The request handler\<close>

text \<open>
  What the handler is given: the request, and the world around it (the environment
  variable, the remote API behind \<^verbatim>\<open>fetch\<close>, \<^verbatim>\<open>JSON.parse\<close>, the clock, and the message
  the engine puts in a thrown error). A rejected \<^verbatim>\<open>fetch\<close> is \<open>Inl\<close> of its message, a
  text that is not JSON parses to \<open>None\<close>.
\<close>

record request =
  req_method :: jsstring
  body :: json

record reply =
  ok :: bool
  status :: nat
  body_text :: jsstring

record world =
  apiKey :: "jsstring option"
  fetch :: "jsstring \<Rightarrow> jsstring \<Rightarrow> jsstring + reply"
  JSON_parse :: "jsstring \<Rightarrow> json option"
  clock_now :: clock
  message :: "js_error \<Rightarrow> jsstring"

text \<open>
  What the handler does, in order: reading \<^verbatim>\<open>req.body\<close>, calling the remote API (with
  the key and the image), writing to the error console, and answering with a status and
  the value it hands to \<^verbatim>\<open>res.json\<close>.
\<close>

datatype event =
    ReadBody
  | Fetch jsstring jsstring
  | ConsoleError
  | Respond nat json

definition error_body :: "jsstring \<Rightarrow> json" where
  "error_body msg = JObj [(ascii ''error'', JStr msg)]"

text \<open>\<^verbatim>\<open>v?.k\<close>\<close>

definition opt_chain :: "json \<Rightarrow> jsstring \<Rightarrow> json" where
  "opt_chain v k = (if nullish v then JUndefined else property v k)"

text \<open>\<^verbatim>\<open>v?.[0]\<close>: the first element of an array, the first code unit of a string, the own
  property \<open>0\<close> of an object.\<close>

definition opt_first :: "json \<Rightarrow> json" where
  "opt_first v =
     (case v of
        JArr (x # _) \<Rightarrow> x
      | JStr (c # _) \<Rightarrow> JStr [c]
      | JObj kvs \<Rightarrow> property v (ascii ''0'')
      | _ \<Rightarrow> JUndefined)"

text \<open>The outer \<^verbatim>\<open>catch\<close>: \<^verbatim>\<open>error.message || 'Unknown server error'\<close>.\<close>

definition caught :: "jsstring \<Rightarrow> event list" where
  "caught msg =
     [ConsoleError,
      Respond 500 (error_body (if msg \<noteq> [] then msg else ascii ''Unknown server error''))]"

text \<open>
  The answer to a reply that is not \<^verbatim>\<open>ok\<close>: the prefix \<open>OpenAI API\<close>, U+30A8 U+30E9
  U+30FC, the status in parentheses, then the remote error message when the reply is a
  JSON value that has one, the reply's text otherwise.
\<close>

definition errorMessage :: "world \<Rightarrow> reply \<Rightarrow> jsstring" where
  "errorMessage w r =
     ascii ''OpenAI API '' @ [12456, 12521, 12540] @ ascii '' ('' @ digits (status r) @ ascii '')''
     @ ascii '': ''
     @ (case JSON_parse w (body_text r) of
          None \<Rightarrow> body_text r
        | Some errorJson \<Rightarrow>
            (if nullish errorJson then body_text r
             else let m = opt_chain (property errorJson (ascii ''error'')) (ascii ''message'')
                  in if truthy m
                     then (case toString m of Inl e \<Rightarrow> body_text r | Inr s \<Rightarrow> s)
                     else body_text r))"

definition after_fetch :: "world \<Rightarrow> reply \<Rightarrow> event list" where
  "after_fetch w r =
     (if \<not> ok r then [ConsoleError, Respond (status r) (error_body (errorMessage w r))]
      else case JSON_parse w (body_text r) of
        None \<Rightarrow>
          [ConsoleError, Respond 500 (error_body (ascii ''Failed to parse OpenAI JSON response.''))]
      | Some json \<Rightarrow>
          (if nullish json then caught (message w TypeError)
           else let content =
                  opt_chain (opt_chain (opt_first (property json (ascii ''choices'')))
                    (ascii ''message'')) (ascii ''content'')
                in if \<not> truthy content
                   then [ConsoleError,
                         Respond 500 (error_body (ascii ''Unexpected OpenAI response format.''))]
                   else case (case toString content of
                                Inl e \<Rightarrow> None
                              | Inr s \<Rightarrow> JSON_parse w s) of
                          None \<Rightarrow>
                            [ConsoleError,
                             Respond 500
                               (error_body (ascii ''Failed to parse OpenAI content as JSON.''))]
                        | Some data \<Rightarrow>
                            (case normalizeReceipt (clock_now w) data of
                               Inl e \<Rightarrow> caught (message w e)
                             | Inr res \<Rightarrow> [Respond 200 res])))"

text \<open>The exported function, lines 6 to 182.\<close>

definition handler :: "world \<Rightarrow> request \<Rightarrow> event list" where
  "handler w req =
     (if req_method req \<noteq> ascii ''POST''
      then [Respond 405 (error_body (ascii ''Method not allowed''))]
      else case apiKey w of
        None \<Rightarrow> [Respond 500 (error_body (ascii ''OPENAI_API_KEY is not set on the server.''))]
      | Some key \<Rightarrow>
          (if key = [] then
             [Respond 500 (error_body (ascii ''OPENAI_API_KEY is not set on the server.''))]
           else
             ReadBody #
             (let imageSrc = property (js_or (body req) (JObj [])) (ascii ''imageSrc'')
              in case imageSrc of
                   JStr src \<Rightarrow>
                     (if src = [] then [Respond 400 (error_body (ascii ''imageSrc is required.''))]
                      else Fetch key src #
                        (case fetch w key src of
                           Inl msg \<Rightarrow> caught msg
                         | Inr r \<Rightarrow> after_fetch w r))
                 | _ \<Rightarrow> [Respond 400 (error_body (ascii ''imageSrc is required.''))])))"

section \<open>The vocabulary of the properties\<close>

text \<open>
  The value the decimal notation gives a digit string, most significant digit first: the
  reading of a text as a base-10 integer, stated apart from \<open>digits_value\<close>, the loop
  \<^verbatim>\<open>parseInt\<close> runs.
\<close>

fun decimal :: "jsstring \<Rightarrow> nat" where
  "decimal [] = 0"
| "decimal (c # cs) = (c - 48) * 10 ^ length cs + decimal cs"

text \<open>The Number for a sign and a magnitude: the nearest double, and a zero that keeps its sign.\<close>

definition signed_amount :: "bool \<Rightarrow> nat \<Rightarrow> number" where
  "signed_amount neg m =
     (if m = 0 then (if neg then NegZero else Fin 0) else to_double neg m)"

text \<open>A text starts with an integer: after white space, a digit, or a sign and a digit.\<close>

definition starts_with_integer :: "jsstring \<Rightarrow> bool" where
  "starts_with_integer raw =
     (case dropWhile isWhiteSpace raw of
        [] \<Rightarrow> False
      | c # cs \<Rightarrow>
          isDigit c \<or> ((c = 43 \<or> c = 45) \<and> (case cs of [] \<Rightarrow> False | d # _ \<Rightarrow> isDigit d)))"

text \<open>The first character after the white space is a minus sign.\<close>

definition minus_first :: "jsstring \<Rightarrow> bool" where
  "minus_first raw = (case dropWhile isWhiteSpace raw of [] \<Rightarrow> False | c # _ \<Rightarrow> c = 45)"

definition non_negative :: "number \<Rightarrow> bool" where
  "non_negative x = (case x of Fin i \<Rightarrow> 0 \<le> i | Infinity \<Rightarrow> True | _ \<Rightarrow> False)"

text \<open>An integer that is a double: rounding leaves its magnitude as it is.\<close>

definition double_valued :: "number \<Rightarrow> bool" where
  "double_valued x = (case x of Fin i \<Rightarrow> round_nat (nat \<bar>i\<bar>) = Some (nat \<bar>i\<bar>) | _ \<Rightarrow> True)"

text \<open>
  An amount of the input has a text: \<^verbatim>\<open>(v || '0').toString()\<close> returns, which is
  assumed of an amount wherever it is used below. With the functions above it throws for
  an object with an own property \<open>toString\<close>, alone or inside an array; an engine
  can also run out of stack on an array.
\<close>

definition renders :: "json \<Rightarrow> bool" where
  "renders v = (case toString (js_or v (JStr (ascii ''0''))) of Inl e \<Rightarrow> False | Inr s \<Rightarrow> True)"

text \<open>
  An amount whose rendering calls nothing: anything but an array, and but an object with
  an own property \<open>toString\<close>. A missing amount, a text, a number, a boolean and a
  plain object are such amounts.
\<close>

definition plain_amount :: "json \<Rightarrow> bool" where
  "plain_amount v =
     (case v of
        JArr xs \<Rightarrow> False
      | JObj kvs \<Rightarrow> ascii ''toString'' \<notin> fst ` set kvs
      | _ \<Rightarrow> True)"

text \<open>
  The inputs on which the functions above return a receipt: any value but \<^verbatim>\<open>null\<close> and
  \<^verbatim>\<open>undefined\<close>, whose total and whose named items' prices have a text.
\<close>

definition returns_receipt :: "json \<Rightarrow> bool" where
  "returns_receipt data =
     (\<not> nullish data \<and> renders (property data (ascii ''total''))
      \<and> list_all (\<lambda>item. renders (property item (ascii ''price''))) (filter named (items data)))"

text \<open>
  A text is an amount as the handler prints it: the rendering of the integer it reads
  as, negative or not, or the rendering of an infinity (U+221E).
\<close>

definition is_amount :: "jsstring \<Rightarrow> bool" where
  "is_amount s =
     (s = [8734] \<or> s = [45, 8734]
      \<or> (\<not> isNaN (parseInt (strip_commas s)) \<and> toLocaleString (parseInt (strip_commas s)) = s))"

definition amount_value :: "json \<Rightarrow> bool" where
  "amount_value v = (case v of JStr s \<Rightarrow> is_amount s | _ \<Rightarrow> False)"

definition is_text :: "json \<Rightarrow> bool" where
  "is_text v = (case v of JStr s \<Rightarrow> True | _ \<Rightarrow> False)"

text \<open>
  What every receipt the normalization returns satisfies: a truthy store name and date,
  amounts as above, a category of the enumeration, and a non-empty list of items with
  truthy names and amounts as prices.
\<close>

definition well_formed :: "json \<Rightarrow> bool" where
  "well_formed r =
     (truthy (property r (ascii ''storeName'')) \<and> truthy (property r (ascii ''date''))
      \<and> amount_value (property r (ascii ''total''))
      \<and> property r (ascii ''categoryId'') \<in> set (map JStr categories)
      \<and> (case property r (ascii ''items'') of
            JArr its \<Rightarrow>
              its \<noteq> []
              \<and> list_all (\<lambda>item. truthy (property item (ascii ''name''))
                                 \<and> amount_value (property item (ascii ''price''))) its
          | _ \<Rightarrow> False))"

text \<open>No amount of a receipt is the rendering of an infinity.\<close>

definition finite_amounts :: "json \<Rightarrow> bool" where
  "finite_amounts r =
     (\<forall>v \<in> set (property r (ascii ''total'')
                  # map (\<lambda>item. property item (ascii ''price'')) (items r)).
        v \<noteq> JStr [8734] \<and> v \<noteq> JStr [45, 8734])"

text \<open>A clock reading, and two worlds, for the concrete runs below.\<close>

definition sample_now :: clock where
  "sample_now = \<lparr>year = 2026, month = 11, day = 2, hour = 9, minute = 5\<rparr>"

definition other_now :: clock where
  "other_now = \<lparr>year = 2031, month = 1, day = 15, hour = 23, minute = 40\<rparr>"

definition unconfigured_world :: world where
  "unconfigured_world =
     \<lparr>apiKey = None, fetch = (\<lambda>key src. Inl []), JSON_parse = (\<lambda>s. None),
      clock_now = sample_now, message = (\<lambda>e. [])\<rparr>"

definition configured_world :: world where
  "configured_world = unconfigured_world\<lparr>apiKey := Some (ascii ''sk-test'')\<rparr>"

section \<open>Lemmas\<close>

subsection \<open>Rounding to a double\<close>

lemma ulp_exp_small: "n < 2 ^ 53 \<Longrightarrow> ulp_exp n = 0"
  by (simp add: ulp_exp.simps)

lemma ulp_exp_big: "\<not> n < 2 ^ 53 \<Longrightarrow> ulp_exp n = Suc (ulp_exp (n div 2))"
  by (subst ulp_exp.simps) simp

lemma round_nat_small: "n < 2 ^ 53 \<Longrightarrow> round_nat n = Some n"
  by (simp add: round_nat_def ulp_exp_small Let_def)

lemma ulp_exp_scaled:
  "2 ^ 52 \<le> q \<Longrightarrow> q < 2 ^ 53 \<Longrightarrow> ulp_exp (q * 2 ^ e) = e"
proof (induction e)
  case 0
  then show ?case by (simp add: ulp_exp_small)
next
  case (Suc e)
  have "(2::nat) ^ 53 \<le> q * 2 ^ Suc e"
  proof -
    have "(2::nat) ^ 52 * 2 \<le> q * (2 * 2 ^ e)"
      using Suc.prems(1) by (intro mult_le_mono) simp_all
    then show ?thesis by simp
  qed
  then have "ulp_exp (q * 2 ^ Suc e) = Suc (ulp_exp (q * 2 ^ Suc e div 2))"
    by (intro ulp_exp_big) simp
  also have "q * 2 ^ Suc e div 2 = q * 2 ^ e" by simp
  finally show ?case using Suc by simp
qed

lemma round_nat_scaled:
  assumes "2 ^ 52 \<le> q" "q < 2 ^ 53" "q * 2 ^ e < 2 ^ 1024"
  shows "round_nat (q * 2 ^ e) = Some (q * 2 ^ e)"
  using assms by (simp add: round_nat_def ulp_exp_scaled Let_def)

lemma ulp_exp_bounds:
  "0 < ulp_exp n \<Longrightarrow> 2 ^ 52 \<le> n div 2 ^ ulp_exp n \<and> n div 2 ^ ulp_exp n < 2 ^ 53"
proof (induction n rule: ulp_exp.induct)
  case (1 n)
  show ?case
  proof (cases "n < 2 ^ 53")
    case True
    with "1.prems" show ?thesis by (simp add: ulp_exp_small)
  next
    case False
    then have e: "ulp_exp n = Suc (ulp_exp (n div 2))" by (rule ulp_exp_big)
    have d: "n div 2 ^ Suc k = (n div 2) div 2 ^ k" for k
      by (simp add: div_mult2_eq)
    show ?thesis
    proof (cases "ulp_exp (n div 2) = 0")
      case True
      then have "n div 2 < 2 ^ 53"
        by (metis ulp_exp_big nat.simps(3))
      with False True e show ?thesis by (simp add: d del: power_Suc) 
    next
      case False2: False
      with "1.IH"[OF False] e show ?thesis by (simp add: d del: power_Suc)
    qed
  qed
qed

lemma round_nat_idem:
  assumes "round_nat n = Some v"
  shows "round_nat v = Some v"
proof (cases "ulp_exp n = 0")
  case True
  then have "n < 2 ^ 53" by (metis ulp_exp_big nat.simps(3))
  with assms show ?thesis by (simp add: round_nat_small)
next
  case False
  define e where "e = ulp_exp n"
  define q where "q = n div 2 ^ e"
  have qb: "2 ^ 52 \<le> q" "q < 2 ^ 53"
    using ulp_exp_bounds[of n] False by (simp_all add: q_def e_def)
  from assms have "(v = q * 2 ^ e \<or> v = (q + 1) * 2 ^ e) \<and> v < 2 ^ 1024"
    by (auto simp: round_nat_def Let_def e_def[symmetric] q_def[symmetric] split: if_splits)
  then consider "v = q * 2 ^ e" "v < 2 ^ 1024" | "v = (q + 1) * 2 ^ e" "v < 2 ^ 1024" by blast
  then show ?thesis
  proof cases
    case 1
    then show ?thesis using round_nat_scaled[OF qb] by simp
  next
    case 2
    show ?thesis
    proof (cases "q + 1 < 2 ^ 53")
      case True
      then show ?thesis using round_nat_scaled[of "q + 1" e] qb 2 by simp
    next
      case False
      with qb have "q + 1 = 2 ^ 53" by simp
      then have "v = 2 ^ 52 * 2 ^ Suc e" using 2 by simp
      then show ?thesis using round_nat_scaled[of "2 ^ 52" "Suc e"] 2 by simp
    qed
  qed
qed

subsection \<open>Digits, grouping and \<^verbatim>\<open>parseInt\<close>\<close>

lemma digits_value_snoc: "digits_value (ds @ [c]) = 10 * digits_value ds + (c - 48)"
  by (simp add: digits_value_def)

lemma digits_value_digits: "digits_value (digits n) = n"
proof (induction n rule: digits.induct)
  case (1 n)
  show ?case
  proof (cases "n < 10")
    case True
    then show ?thesis by (subst digits.simps) (simp add: digits_value_def)
  next
    case False
    then have "digits n = digits (n div 10) @ [48 + n mod 10]"
      by (subst digits.simps) simp
    with "1.IH"[OF False] show ?thesis by (simp add: digits_value_snoc)
  qed
qed

lemma digits_all: "c \<in> set (digits n) \<Longrightarrow> isDigit c"
proof (induction n rule: digits.induct)
  case (1 n)
  show ?case
  proof (cases "n < 10")
    case True
    with "1.prems" show ?thesis by (subst (asm) digits.simps) (simp add: isDigit_def)
  next
    case False
    then have "digits n = digits (n div 10) @ [48 + n mod 10]"
      by (subst digits.simps) simp
    with "1.IH"[OF False] "1.prems" show ?thesis by (auto simp: isDigit_def)
  qed
qed

lemma digits_nonempty: "digits n \<noteq> []"
  by (subst digits.simps) simp

lemma isDigit_simps:
  "isDigit c \<Longrightarrow> \<not> isWhiteSpace c" "isDigit c \<Longrightarrow> c \<noteq> 43" "isDigit c \<Longrightarrow> c \<noteq> 45"
  "isDigit c \<Longrightarrow> c \<noteq> 44" "isDigit c \<Longrightarrow> c \<noteq> 65292"
  by (auto simp: isDigit_def isWhiteSpace_def)

lemma strip_group_rev: "strip_commas (group_rev ds) = strip_commas ds"
  by (induction ds rule: group_rev.induct) (simp_all add: strip_commas_def)

lemma strip_commas_digits: "\<forall>c \<in> set ds. isDigit c \<Longrightarrow> strip_commas ds = ds"
  by (auto simp: strip_commas_def filter_id_conv dest: isDigit_simps)

lemma strip_grouped: "strip_commas (grouped ds) = strip_commas ds"
proof -
  have "strip_commas (rev xs) = rev (strip_commas xs)" for xs
    by (simp add: strip_commas_def rev_filter)
  then show ?thesis by (simp add: grouped_def strip_group_rev)
qed

lemma shortest_reads_back: "round_nat n = Some n \<Longrightarrow> round_nat (shortest n) = Some n"
  by (auto simp: shortest_def find_Some_iff split: option.splits)

lemma shortest_nonzero:
  assumes "n \<noteq> 0"
  shows "shortest n \<noteq> 0"
proof (cases "n < 2 ^ 53")
  case True
  then show ?thesis using assms by (simp add: shortest_def)
next
  case False
  show ?thesis
  proof
    assume z: "shortest n = 0"
    with False \<open>n \<noteq> 0\<close> have "round_nat 0 = Some n"
      by (auto simp: shortest_def find_Some_iff split: option.splits)
    with \<open>n \<noteq> 0\<close> show False by (simp add: round_nat_small)
  qed
qed

lemma parseInt_unsigned:
  assumes "ds \<noteq> []" "\<forall>c \<in> set ds. isDigit c" "rest = [] \<or> \<not> isDigit (hd rest)"
  shows "parseInt (ds @ rest) =
     (if digits_value ds = 0 then Fin 0 else to_double False (digits_value ds))"
proof -
  obtain d ds' where ds: "ds = d # ds'" using assms(1) by (cases ds) auto
  then have d: "isDigit d" using assms(2) by simp
  have tw: "takeWhile isDigit (ds @ rest) = ds"
    using assms(2,3) by (cases rest) (auto simp: takeWhile_append2 takeWhile_eq_all_conv)
  have dw: "dropWhile isWhiteSpace (ds @ rest) = ds @ rest"
    using d by (simp add: ds isDigit_simps)
  show ?thesis
    unfolding parseInt_def dw Let_def
    using d tw assms(1) by (simp add: ds isDigit_simps)
qed

lemma parseInt_signed:
  assumes "ds \<noteq> []" "\<forall>c \<in> set ds. isDigit c" "rest = [] \<or> \<not> isDigit (hd rest)"
    "sign = 43 \<or> sign = 45"
  shows "parseInt (sign # ds @ rest) =
     (if digits_value ds = 0 then (if sign = 45 then NegZero else Fin 0)
      else to_double (sign = 45) (digits_value ds))"
proof -
  have tw: "takeWhile isDigit (ds @ rest) = ds"
    using assms(2,3) by (cases rest) (auto simp: takeWhile_append2 takeWhile_eq_all_conv)
  have ws: "\<not> isWhiteSpace sign" using assms(4) by (auto simp: isWhiteSpace_def)
  show ?thesis
    unfolding parseInt_def Let_def
    using tw assms(1,4) ws by auto
qed

subsection \<open>An amount printed is read back as it was\<close>

lemma double_valued_parseInt: "double_valued (parseInt s)"
  by (auto simp: parseInt_def Let_def double_valued_def to_double_def round_nat_small
      dest: round_nat_idem split: option.splits)

lemma parseInt_digits:
  "parseInt (digits m) = (if m = 0 then Fin 0 else to_double False m)"
  using parseInt_unsigned[of "digits m" "[]"]
  by (simp add: digits_nonempty digits_all digits_value_digits)

lemma parseInt_minus_digits:
  "parseInt (45 # digits m) = (if m = 0 then NegZero else to_double True m)"
  using parseInt_signed[of "digits m" "[]" 45]
  by (simp add: digits_nonempty digits_all digits_value_digits)

lemma strip_grouped_digits: "strip_commas (grouped (digits m)) = digits m"
  by (simp add: strip_grouped strip_commas_digits digits_all)

lemma strip_commas_Cons_minus: "strip_commas (45 # s) = 45 # strip_commas s"
  by (simp add: strip_commas_def)

lemma reads_back_NegZero: "parseInt (strip_commas (toLocaleString NegZero)) = NegZero"
  by (simp add: toLocaleString_def strip_commas_def ascii_def parseInt_def isWhiteSpace_def
      isDigit_def digits_value_def)

lemma strip_toLocaleString_Fin:
  "strip_commas (toLocaleString (Fin i)) =
     (if i < 0 then 45 # digits (shortest (nat \<bar>i\<bar>)) else digits (shortest (nat \<bar>i\<bar>)))"
  by (simp add: toLocaleString_def strip_commas_Cons_minus strip_grouped_digits)

lemma reads_back_Fin:
  assumes "round_nat (nat \<bar>i\<bar>) = Some (nat \<bar>i\<bar>)"
  shows "parseInt (strip_commas (toLocaleString (Fin i))) = Fin i"
proof -
  define m where "m = nat \<bar>i\<bar>"
  have sh: "round_nat (shortest m) = Some m"
    using assms unfolding m_def by (rule shortest_reads_back)
  show ?thesis
  proof (cases "m = 0")
    case True
    then have "i = 0" "shortest m = 0" by (simp_all add: m_def shortest_def)
    then show ?thesis
      unfolding strip_toLocaleString_Fin m_def[symmetric] by (simp add: parseInt_digits)
  next
    case False
    then have nz: "shortest m \<noteq> 0" by (rule shortest_nonzero)
    show ?thesis
    proof (cases "i < 0")
      case True
      then have "- int m = i" by (simp add: m_def)
      then show ?thesis
        unfolding strip_toLocaleString_Fin m_def[symmetric]
        using True nz sh by (simp add: parseInt_minus_digits to_double_def)
    next
      case False
      then have "int m = i" by (simp add: m_def)
      then show ?thesis
        unfolding strip_toLocaleString_Fin m_def[symmetric]
        using False nz sh by (simp add: parseInt_digits to_double_def)
    qed
  qed
qed

lemma reads_back:
  assumes "double_valued x" "x \<noteq> NaN" "x \<noteq> Infinity" "x \<noteq> NegInfinity"
  shows "parseInt (strip_commas (toLocaleString x)) = x"
  using assms by (cases x) (simp_all add: reads_back_NegZero reads_back_Fin double_valued_def)

subsection \<open>A receipt returned is normalized to itself\<close>

lemma truthy_js_or: "truthy b \<Longrightarrow> truthy (js_or a b)"
  by (simp add: js_or_def)

lemma js_or_truthy: "truthy a \<Longrightarrow> js_or a b = a"
  by (simp add: js_or_def)

lemma grouped_nonempty: "ds \<noteq> [] \<Longrightarrow> grouped ds \<noteq> []"
proof -
  have "xs \<noteq> [] \<Longrightarrow> group_rev xs \<noteq> []" for xs
    by (induction xs rule: group_rev.induct) simp_all
  then show "ds \<noteq> [] \<Longrightarrow> grouped ds \<noteq> []" by (simp add: grouped_def)
qed

lemma toLocaleString_nonempty: "toLocaleString x \<noteq> []"
  by (cases x) (simp_all add: toLocaleString_def ascii_def grouped_nonempty digits_nonempty)

lemma set_group_rev: "set (group_rev ds) \<subseteq> insert 44 (set ds)"
  by (induction ds rule: group_rev.induct) auto

lemma set_grouped: "set (grouped ds) \<subseteq> insert 44 (set ds)"
  using set_group_rev[of "rev ds"] by (simp add: grouped_def)

lemma set_toLocaleString_Fin:
  assumes "c \<in> set (toLocaleString (Fin i))"
  shows "isDigit c \<or> c = 44 \<or> c = 45"
proof -
  from assms have "c = 45 \<or> c \<in> set (grouped (digits (shortest (nat \<bar>i\<bar>))))"
    by (auto simp: toLocaleString_def split: if_splits)
  then show ?thesis using set_grouped digits_all by blast
qed

lemma toLocaleString_Infinity:
  "toLocaleString x = [8734] \<longleftrightarrow> x = Infinity"
  "toLocaleString x = [45, 8734] \<longleftrightarrow> x = NegInfinity"
proof -
  have fin: "8734 \<notin> set (toLocaleString (Fin i))" for i
    using set_toLocaleString_Fin[of 8734 i] by (auto simp: isDigit_def)
  have other: "toLocaleString NaN = ascii ''NaN''" "toLocaleString NegZero = ascii ''-0''"
    "toLocaleString Infinity = [8734]" "toLocaleString NegInfinity = [45, 8734]"
    by (simp_all add: toLocaleString_def)
  show "toLocaleString x = [8734] \<longleftrightarrow> x = Infinity"
  proof (cases x)
    case (Fin i)
    then show ?thesis using fin[of i] by auto
  qed (simp_all add: other ascii_def)
  show "toLocaleString x = [45, 8734] \<longleftrightarrow> x = NegInfinity"
  proof (cases x)
    case (Fin i)
    then show ?thesis using fin[of i] by auto
  qed (simp_all add: other ascii_def)
qed

lemma property_result:
  "property (result a b t c ms) (ascii ''storeName'') = a"
  "property (result a b t c ms) (ascii ''date'') = b"
  "property (result a b t c ms) (ascii ''total'') = JStr (toLocaleString t)"
  "property (result a b t c ms) (ascii ''categoryId'') = c"
  "property (result a b t c ms) (ascii ''items'') =
     JArr (if ms \<noteq> [] then ms
           else [JObj [(ascii ''name'', JStr generic_item),
                       (ascii ''price'', JStr (toLocaleString t)),
                       (ascii ''categoryId'', c)]])"
  by (simp_all add: result_def property_def ascii_def)

lemma property_item:
  "property (JObj [(ascii ''name'', n), (ascii ''price'', p), (ascii ''categoryId'', k)])
     (ascii ''name'') = n"
  "property (JObj [(ascii ''name'', n), (ascii ''price'', p), (ascii ''categoryId'', k)])
     (ascii ''price'') = p"
  "property (JObj [(ascii ''name'', n), (ascii ''price'', p), (ascii ''categoryId'', k)])
     (ascii ''categoryId'') = k"
  by (simp_all add: property_def ascii_def)

lemma amount_reads_back:
  assumes "double_valued x" "x \<noteq> NaN" "x \<noteq> Infinity" "x \<noteq> NegInfinity"
  shows "toString (js_or (JStr (toLocaleString x)) (JStr (ascii ''0''))) = Inr (toLocaleString x)"
    and "(if isNaN (parseInt (strip_commas (toLocaleString x))) then Fin 0
          else parseInt (strip_commas (toLocaleString x))) = x"
  using assms by (simp_all add: js_or_def toLocaleString_nonempty reads_back isNaN_def)

lemma mapped_fixed:
  assumes "truthy n" "truthy k" "double_valued p" "p \<noteq> NaN" "p \<noteq> Infinity" "p \<noteq> NegInfinity"
    and m: "m = JObj [(ascii ''name'', n), (ascii ''price'', JStr (toLocaleString p)),
                      (ascii ''categoryId'', k)]"
  shows "named m" and "mapped d m = Inr m"
proof -
  show "named m" using assms(1) by (simp add: named_def m property_item)
  have "itemPrice m = Inr p"
    using amount_reads_back[OF assms(3-6)]
    by (simp add: itemPrice_def itemRaw_def m property_item)
  then show "mapped d m = Inr m"
    using assms(2) by (simp add: mapped_def m property_item js_or_truthy)
qed

lemma double_valued_amount:
  "double_valued (if isNaN (parseInt s) then Fin 0 else parseInt s)"
  "(if isNaN (parseInt s) then Fin 0 else parseInt s) \<noteq> NaN"
  using double_valued_parseInt[of s]
  by (auto simp: isNaN_def double_valued_def round_nat_small)

lemma item_category_truthy: "truthy (js_or x (js_or y (JStr (ascii ''other''))))"
  by (simp add: js_or_def ascii_def)

lemma mapped_shape:
  assumes "named x" "mapped data x = Inr m"
  shows "\<exists>n p k. m = JObj [(ascii ''name'', n), (ascii ''price'', JStr (toLocaleString p)),
                       (ascii ''categoryId'', k)]
               \<and> truthy n \<and> truthy k \<and> double_valued p \<and> p \<noteq> NaN
               \<and> n = property x (ascii ''name'') \<and> itemPrice x = Inr p"
  using assms
  by (auto simp: mapped_def named_def itemPrice_def double_valued_amount item_category_truthy
      split: sum.splits)

lemma map_throwing_Inr:
  "map_throwing f xs = Inr ys \<Longrightarrow> list_all2 (\<lambda>x y. f x = Inr y) xs ys"
  by (induction xs arbitrary: ys) (auto split: sum.splits)

lemma map_throwing_fixed: "\<forall>x \<in> set xs. f x = Inr x \<Longrightarrow> map_throwing f xs = Inr xs"
  by (induction xs) auto

lemma categories_truthy: "c \<in> set (map JStr categories) \<Longrightarrow> truthy c"
  by (auto simp: categories_def ascii_def)

lemma categoryId_valid: "categoryId data \<in> set (map JStr categories)"
  by (simp add: categoryId_def) (simp add: categories_def)

lemma generic_item_truthy: "truthy (JStr generic_item)"
  by (simp add: generic_item_def)

lemma unknown_store_truthy: "truthy (JStr unknown_store)"
  by (simp add: unknown_store_def)

lemma format_date_truthy: "truthy (JStr (format_date now))"
  by (simp add: format_date_def)

lemma normalize_fixed:
  assumes "truthy a" "truthy b" "c \<in> set (map JStr categories)"
    and t: "double_valued t" "t \<noteq> NaN" "t \<noteq> Infinity" "t \<noteq> NegInfinity"
    and ms: "\<forall>m \<in> set ms. named m \<and> mapped (result a b t c ms) m = Inr m"
  shows "normalizeReceipt now (result a b t c ms) = Inr (result a b t c ms)"
proof -
  let ?r = "result a b t c ms"
  let ?fallback = "JObj [(ascii ''name'', JStr generic_item),
                       (ascii ''price'', JStr (toLocaleString t)),
                       (ascii ''categoryId'', c)]"
  let ?its = "if ms \<noteq> [] then ms else [?fallback]"
  have nn: "\<not> nullish ?r" by (simp add: result_def nullish_def)
  have store: "safeStoreName ?r = Inr a"
    using assms(1) nn by (simp add: safeStoreName_def get_def property_result js_or_truthy)
  have date: "safeDate now ?r = b"
    using assms(2) by (simp add: safeDate_def property_result js_or_truthy)
  have total: "numericTotal ?r = Inr t"
    using amount_reads_back[OF t] by (simp add: numericTotal_def rawTotal_def property_result)
  have cat: "categoryId ?r = c"
    using assms(3) categories_truthy[OF assms(3)] by (simp add: categoryId_def property_result)
  have its: "items ?r = ?its" by (simp add: items_def property_result)
  have fb: "named ?fallback \<and> mapped ?r ?fallback = Inr ?fallback"
    using mapped_fixed[OF generic_item_truthy categories_truthy[OF assms(3)] t refl] by simp
  have all: "\<forall>m \<in> set ?its. named m \<and> mapped ?r m = Inr m"
    using ms fb by auto
  then have "filter named ?its = ?its" by (simp add: filter_id_conv)
  with all have mi: "mappedItems ?r = Inr ?its"
    unfolding mappedItems_def its by (simp add: map_throwing_fixed)
  have "result a b t c ?its = ?r" by (simp add: result_def)
  then show ?thesis
    unfolding normalizeReceipt_def store date total cat mi by simp
qed

lemma numericTotal_good:
  assumes "numericTotal data = Inr t"
  shows "double_valued t" "t \<noteq> NaN"
  using assms double_valued_amount
  by (auto simp: numericTotal_def split: sum.splits)

lemma safeStoreName_truthy: "safeStoreName data = Inr a \<Longrightarrow> truthy a"
  by (auto simp: safeStoreName_def split: sum.splits intro!: truthy_js_or unknown_store_truthy)

lemma safeDate_truthy: "truthy (safeDate now data)"
  unfolding safeDate_def by (intro truthy_js_or format_date_truthy)

lemma normalizeReceipt_Inr:
  assumes "normalizeReceipt now data = Inr r"
  obtains a t ms where "safeStoreName data = Inr a" "numericTotal data = Inr t"
    "mappedItems data = Inr ms" "r = result a (safeDate now data) t (categoryId data) ms"
  using assms by (auto simp: normalizeReceipt_def split: sum.splits)

lemma map_throwing_set:
  "map_throwing f xs = Inr ys \<Longrightarrow> y \<in> set ys \<Longrightarrow> \<exists>x \<in> set xs. f x = Inr y"
  by (induction xs arbitrary: ys) (auto split: sum.splits)

lemma mappedItems_shape:
  assumes "mappedItems data = Inr ms" "m \<in> set ms"
  shows "\<exists>x. named x \<and> mapped data x = Inr m"
  using map_throwing_set[OF assms(1)[unfolded mappedItems_def] assms(2)] by auto

subsection \<open>The integer at the start of a text\<close>

lemma digits_value_decimal: "digits_value ds = decimal ds"
proof -
  have "foldl (\<lambda>a c. 10 * a + (c - 48)) a ds = a * 10 ^ length ds + decimal ds" for a
    by (induction ds arbitrary: a) (simp_all add: algebra_simps)
  then show ?thesis by (simp add: digits_value_def)
qed

lemma to_double_small: "m < 2 ^ 53 \<Longrightarrow> to_double neg m = Fin (if neg then - int m else int m)"
  by (simp add: to_double_def round_nat_small)

lemma parseInt_skips_white_space:
  "\<forall>c \<in> set ws. isWhiteSpace c \<Longrightarrow> parseInt (ws @ s) = parseInt s"
  by (simp add: parseInt_def dropWhile_append2)

lemma parseInt_prefix:
  assumes "\<forall>c \<in> set ws. isWhiteSpace c" "sign = [] \<or> sign = [43] \<or> sign = [45]"
    "ds \<noteq> []" "\<forall>c \<in> set ds. isDigit c" "rest = [] \<or> \<not> isDigit (hd rest)"
  shows "parseInt (ws @ sign @ ds @ rest) = signed_amount (sign = [45]) (decimal ds)"
proof -
  have "parseInt (sign @ ds @ rest) = signed_amount (sign = [45]) (decimal ds)"
    using assms(2) parseInt_unsigned[OF assms(3-5)]
      parseInt_signed[OF assms(3-5), of 43] parseInt_signed[OF assms(3-5), of 45]
    by (auto simp: signed_amount_def digits_value_decimal)
  then show ?thesis using assms(1) by (simp add: parseInt_skips_white_space)
qed

lemma parseInt_NaN_iff: "isNaN (parseInt raw) \<longleftrightarrow> \<not> starts_with_integer raw"
proof -
  define t where "t = dropWhile isWhiteSpace raw"
  define u where "u = (case t of [] \<Rightarrow> [] | c # cs \<Rightarrow> if c = 43 \<or> c = 45 then cs else t)"
  have nn: "to_double neg m \<noteq> NaN" for neg m
    by (simp add: to_double_def split: option.splits)
  have "isNaN (parseInt raw) \<longleftrightarrow> takeWhile isDigit u = []"
    unfolding parseInt_def t_def[symmetric] Let_def u_def[symmetric]
    by (simp add: isNaN_def nn)
  also have "\<dots> \<longleftrightarrow> (case u of [] \<Rightarrow> True | d # _ \<Rightarrow> \<not> isDigit d)"
    by (cases u) auto
  also have "\<dots> \<longleftrightarrow> \<not> starts_with_integer raw"
    unfolding starts_with_integer_def t_def[symmetric] u_def
    by (auto simp: isDigit_def split: list.splits)
  finally show ?thesis .
qed

lemma parse_sign:
  assumes "\<not> minus_first raw"
  shows "non_negative (if isNaN (parseInt raw) then Fin 0 else parseInt raw)"
proof -
  define t where "t = dropWhile isWhiteSpace raw"
  have "non_negative (to_double False m)" for m
    by (simp add: to_double_def non_negative_def split: option.splits)
  then show ?thesis
    using assms unfolding parseInt_def minus_first_def t_def[symmetric]
    by (cases t) (auto simp: isNaN_def non_negative_def Let_def)
qed

subsection \<open>When the normalization returns, and what\<close>

lemma plain_amount_renders: "plain_amount v \<Longrightarrow> renders v"
  by (cases v) (auto simp: plain_amount_def renders_def js_or_def)

lemma is_amount_toLocaleString:
  assumes "double_valued x" "x \<noteq> NaN"
  shows "is_amount (toLocaleString x)"
proof (cases "x = Infinity \<or> x = NegInfinity")
  case True
  then show ?thesis by (auto simp: is_amount_def toLocaleString_def)
next
  case False
  with assms have "parseInt (strip_commas (toLocaleString x)) = x" by (simp add: reads_back)
  with assms(2) show ?thesis by (simp add: is_amount_def isNaN_def)
qed

lemma numericTotal_renders:
  "renders (property data (ascii ''total'')) \<longleftrightarrow> (\<exists>t. numericTotal data = Inr t)"
  by (auto simp: renders_def numericTotal_def rawTotal_def split: sum.splits)

lemma itemPrice_renders:
  "renders (property item (ascii ''price'')) \<longleftrightarrow> (\<exists>p. itemPrice item = Inr p)"
  by (auto simp: renders_def itemPrice_def itemRaw_def split: sum.splits)

lemma mapped_renders:
  "renders (property item (ascii ''price'')) \<longleftrightarrow> (\<exists>m. mapped data item = Inr m)"
  by (auto simp: itemPrice_renders mapped_def split: sum.splits)

lemma map_throwing_returns:
  "(\<exists>ys. map_throwing f xs = Inr ys) \<longleftrightarrow> (\<forall>x \<in> set xs. \<exists>y. f x = Inr y)"
  by (induction xs) (auto split: sum.splits)

lemma mappedItems_returns:
  "(\<exists>ms. mappedItems data = Inr ms)
     \<longleftrightarrow> list_all (\<lambda>item. renders (property item (ascii ''price''))) (filter named (items data))"
  unfolding mappedItems_def map_throwing_returns
  by (simp add: list_all_iff mapped_renders[of _ data])

lemma safeStoreName_returns: "(\<exists>a. safeStoreName data = Inr a) \<longleftrightarrow> \<not> nullish data"
  by (auto simp: safeStoreName_def get_def)

lemma normalizeReceipt_returns:
  "(\<exists>r. normalizeReceipt now data = Inr r) \<longleftrightarrow> returns_receipt data"
proof
  assume "\<exists>r. normalizeReceipt now data = Inr r"
  then obtain r where "normalizeReceipt now data = Inr r" ..
  then obtain a t ms where "safeStoreName data = Inr a" "numericTotal data = Inr t"
    "mappedItems data = Inr ms"
    by (rule normalizeReceipt_Inr)
  then show "returns_receipt data"
    unfolding returns_receipt_def
    using safeStoreName_returns numericTotal_renders mappedItems_returns by blast
next
  assume "returns_receipt data"
  then obtain a t ms where "safeStoreName data = Inr a" "numericTotal data = Inr t"
    "mappedItems data = Inr ms"
    unfolding returns_receipt_def
    using safeStoreName_returns numericTotal_renders mappedItems_returns by blast
  then show "\<exists>r. normalizeReceipt now data = Inr r"
    by (simp add: normalizeReceipt_def)
qed

lemma mappedItems_well_formed:
  assumes "mappedItems data = Inr ms" "m \<in> set ms"
  shows "truthy (property m (ascii ''name'')) \<and> amount_value (property m (ascii ''price''))"
proof -
  from mappedItems_shape[OF assms] obtain x where "named x" "mapped data x = Inr m" by auto
  then obtain n p k where
    "m = JObj [(ascii ''name'', n), (ascii ''price'', JStr (toLocaleString p)),
               (ascii ''categoryId'', k)]"
    "truthy n" "double_valued p" "p \<noteq> NaN"
    using mapped_shape by blast
  then show ?thesis
    by (simp add: property_item amount_value_def is_amount_toLocaleString)
qed

lemma normalizeReceipt_well_formed:
  assumes "normalizeReceipt now data = Inr r"
  shows "well_formed r"
proof -
  from assms obtain a t ms where
    a: "safeStoreName data = Inr a" and t: "numericTotal data = Inr t"
    and ms: "mappedItems data = Inr ms"
    and r: "r = result a (safeDate now data) t (categoryId data) ms"
    by (rule normalizeReceipt_Inr)
  have amt: "amount_value (JStr (toLocaleString t))"
    using numericTotal_good[OF t] by (simp add: amount_value_def is_amount_toLocaleString)
  have "list_all (\<lambda>item. truthy (property item (ascii ''name''))
                        \<and> amount_value (property item (ascii ''price''))) ms"
    using mappedItems_well_formed[OF ms] by (simp add: list_all_iff)
  then show ?thesis
    unfolding well_formed_def r property_result
    using safeStoreName_truthy[OF a] safeDate_truthy amt categoryId_valid generic_item_truthy
    by (simp add: property_item)
qed

subsection \<open>Running the model\<close>

text \<open>Unfolding everything, to run the model on a concrete input.\<close>

lemmas eval_simps = ascii_def parseInt_def isWhiteSpace_def isDigit_def digits_value_def
  to_double_def round_nat_small strip_commas_def toLocaleString_def shortest_def grouped_def
  digits.simps property_def js_or_def get_def nullish_def isNaN_def
  normalizeReceipt_def safeStoreName_def safeDate_def numericTotal_def rawTotal_def
  mappedItems_def items_def named_def mapped_def itemPrice_def itemRaw_def categoryId_def
  categories_def result_def

lemma items_not_array:
  "\<forall>xs. property data (ascii ''items'') \<noteq> JArr xs \<Longrightarrow> items data = []"
  by (cases "property data (ascii ''items'')") (simp_all add: items_def)

lemma numericTotal_text:
  assumes "property data (ascii ''total'') = JStr s"
  shows "numericTotal data
     = Inr (if isNaN (parseInt (strip_commas s)) then Fin 0 else parseInt (strip_commas s))"
proof (cases "s = []")
  case True
  have "parseInt [] = NaN" "parseInt (strip_commas (ascii ''0'')) = Fin 0"
    by (simp_all add: eval_simps)
  then show ?thesis
    using assms True by (simp add: numericTotal_def rawTotal_def js_or_def strip_commas_def isNaN_def)
next
  case False
  then show ?thesis
    using assms by (simp add: numericTotal_def rawTotal_def js_or_def)
qed

lemma itemPrice_text:
  assumes "property item (ascii ''price'') = JStr s"
  shows "itemPrice item
     = Inr (if isNaN (parseInt (strip_commas s)) then Fin 0 else parseInt (strip_commas s))"
proof (cases "s = []")
  case True
  have "parseInt [] = NaN" "parseInt (strip_commas (ascii ''0'')) = Fin 0"
    by (simp_all add: eval_simps)
  then show ?thesis
    using assms True by (simp add: itemPrice_def itemRaw_def js_or_def strip_commas_def isNaN_def)
next
  case False
  then show ?thesis
    using assms by (simp add: itemPrice_def itemRaw_def js_or_def)
qed

lemma numericTotal_missing:
  assumes "\<not> truthy (property data (ascii ''total''))"
  shows "numericTotal data = Inr (Fin 0)"
proof -
  have "parseInt (strip_commas (ascii ''0'')) = Fin 0" by (simp add: eval_simps)
  then show ?thesis using assms by (simp add: numericTotal_def rawTotal_def js_or_def isNaN_def)
qed

lemma signed_amount_not_NaN: "\<not> isNaN (signed_amount neg m)"
  by (simp add: signed_amount_def isNaN_def to_double_def split: option.splits)

lemmas date_simps = format_date_def sample_now_def other_now_def two_digits_def

subsection \<open>Overflow\<close>

lemma round_nat_overflow:
  assumes "2 ^ 1024 \<le> n"
  shows "round_nat n = None"
proof -
  define e where "e = ulp_exp n"
  define q where "q = n div 2 ^ e"
  have "\<not> n < 2 ^ 53" using assms by simp
  then have e0: "0 < e" unfolding e_def by (simp add: ulp_exp_big)
  then have qb: "2 ^ 52 \<le> q" "q < 2 ^ 53"
    using ulp_exp_bounds[of n] by (simp_all add: q_def e_def)
  have "n < (q + 1) * 2 ^ e"
    unfolding q_def
    by (metis Suc_eq_plus1 dividend_less_div_times mult.commute zero_less_numeral
        zero_less_power mult_Suc add.commute)
  also have "\<dots> \<le> 2 ^ 53 * 2 ^ e" using qb(2) by (intro mult_le_mono1) simp
  finally have "(2::nat) ^ 1024 < 2 ^ (53 + e)" using assms by (simp add: power_add)
  then have "1024 < 53 + e" by (rule power_less_imp_less_exp[of 2, rotated]) simp
  then have "(2::nat) ^ 1024 \<le> 2 ^ (52 + e)" by (intro power_increasing) simp_all
  also have "\<dots> \<le> q * 2 ^ e" using qb(1) by (simp add: power_add)
  finally have low: "2 ^ 1024 \<le> q * 2 ^ e" .
  have "2 ^ 1024 \<le> (q + 1) * 2 ^ e" using low by (simp add: algebra_simps)
  with low show ?thesis
    by (simp add: round_nat_def Let_def e_def[symmetric] q_def[symmetric])
qed

lemma digits_value_zeros: "digits_value (ds @ replicate n 48) = digits_value ds * 10 ^ n"
proof (induction n)
  case 0
  then show ?case by simp
next
  case (Suc n)
  have "ds @ replicate (Suc n) 48 = (ds @ replicate n 48) @ [48]"
    by (simp add: replicate_append_same)
  then show ?case using Suc by (simp only: digits_value_snoc) simp
qed

lemma parseInt_overflow: "parseInt (49 # replicate 309 48) = Infinity"
proof -
  have v: "digits_value (49 # replicate 309 48) = 10 ^ 309"
    using digits_value_zeros[of "[49]" 309] by (simp add: digits_value_def)
  have "parseInt ((49 # replicate 309 48) @ [])
      = (if digits_value (49 # replicate 309 48) = 0 then Fin 0
         else to_double False (digits_value (49 # replicate 309 48)))"
    by (rule parseInt_unsigned) (simp_all add: isDigit_def)
  moreover have "round_nat (10 ^ 309) = None" by (rule round_nat_overflow) simp
  ultimately show ?thesis by (simp add: v to_double_def)
qed

subsection \<open>The fields of a receipt\<close>

lemma property_result_other:
  "k \<noteq> ascii ''date'' \<Longrightarrow> property (result a b t c ms) k = property (result a b' t c ms) k"
  by (simp add: result_def property_def)

lemma map_throwing_map:
  "map_throwing f xs = Inr ys \<Longrightarrow> (\<And>x y. f x = Inr y \<Longrightarrow> g y = h x) \<Longrightarrow> map g ys = map h xs"
  by (induction xs arbitrary: ys) (auto split: sum.splits)

lemma mapped_name:
  "mapped data item = Inr m \<Longrightarrow> property m (ascii ''name'') = property item (ascii ''name'')"
  by (auto simp: mapped_def property_item split: sum.splits)

section \<open>The claims\<close>

subsection \<open>C1: the category of an item\<close>

text \<open>
  C1 says that the category of every output item is the item's own category when that is
  one of the seven of the enumeration, else the receipt's resolved category, else
  \<open>other\<close>, so that every output item has a category of the enumeration. The handler
  does not check the item's category: line 150 takes the first truthy value of the
  item's raw category, the receipt's raw category and \<open>other\<close>. On the receipt below,
  whose category \<open>sports\<close> is not of the enumeration, the first item keeps its own
  category \<open>hobby\<close> and the second, which has none, gets \<open>sports\<close>, while the
  receipt itself, checked on lines 154 to 158, gets \<open>other\<close>.
\<close>

theorem item_category_unchecked:
  "normalizeReceipt sample_now
     (JObj [(ascii ''categoryId'', JStr (ascii ''sports'')),
            (ascii ''items'',
               JArr [JObj [(ascii ''name'', JStr (ascii ''Racket'')),
                           (ascii ''price'', JStr (ascii ''1,200'')),
                           (ascii ''categoryId'', JStr (ascii ''hobby''))],
                     JObj [(ascii ''name'', JStr (ascii ''Balls''))]])])
   = Inr (JObj [(ascii ''storeName'', JStr unknown_store),
                (ascii ''date'', JStr (format_date sample_now)),
                (ascii ''total'', JStr (ascii ''0'')),
                (ascii ''categoryId'', JStr (ascii ''other'')),
                (ascii ''items'',
                   JArr [JObj [(ascii ''name'', JStr (ascii ''Racket'')),
                               (ascii ''price'', JStr (ascii ''1,200'')),
                               (ascii ''categoryId'', JStr (ascii ''hobby''))],
                         JObj [(ascii ''name'', JStr (ascii ''Balls'')),
                               (ascii ''price'', JStr (ascii ''0'')),
                               (ascii ''categoryId'', JStr (ascii ''sports''))]])])
   \<and> JStr (ascii ''hobby'') \<notin> set (map JStr categories)
   \<and> JStr (ascii ''sports'') \<notin> set (map JStr categories)"
  by (simp add: eval_simps)

subsection \<open>C2: the normalization returns a well-formed receipt\<close>

text \<open>
  C2 says that the normalization returns a well-formed receipt on every input, \<^verbatim>\<open>null\<close>
  included. On \<^verbatim>\<open>null\<close> the first property read throws.
\<close>

theorem null_answer_throws: "normalizeReceipt sample_now JNull = Inl TypeError"
  by (simp add: normalizeReceipt_def safeStoreName_def get_def nullish_def)

text \<open>
  C2 as amended: on every input other than \<^verbatim>\<open>null\<close> whose total and whose named items'
  prices are not arrays and not objects with an own property \<open>toString\<close>, the
  normalization returns a receipt. Every receipt it returns, on any input, has a truthy
  store name and date (a non-empty text when they are texts), a total and prices that
  are renderings of integers, negative or not, or of an infinity, a category of the
  enumeration, and a non-empty list of items whose names are truthy. On \<^verbatim>\<open>null\<close> it
  throws a \<^verbatim>\<open>TypeError\<close>, and so it does when the total is an object with an own
  property \<open>toString\<close>. The categories of the items are left out.
\<close>

theorem normalization_outcome:
  "(\<not> nullish data \<and> plain_amount (property data (ascii ''total''))
      \<and> list_all (\<lambda>item. plain_amount (property item (ascii ''price'')))
            (filter named (items data))
    \<longrightarrow> (\<exists>r. normalizeReceipt now data = Inr r \<and> well_formed r))
   \<and> (normalizeReceipt now data = Inr r \<longrightarrow> well_formed r)
   \<and> (nullish data \<longrightarrow> normalizeReceipt now data = Inl TypeError)
   \<and> (\<not> nullish data \<and> property data (ascii ''total'') = JObj kvs
       \<and> ascii ''toString'' \<in> fst ` set kvs
      \<longrightarrow> normalizeReceipt now data = Inl TypeError)"
proof (intro conjI impI)
  assume h: "\<not> nullish data \<and> plain_amount (property data (ascii ''total''))
      \<and> list_all (\<lambda>item. plain_amount (property item (ascii ''price'')))
            (filter named (items data))"
  then have "list_all (\<lambda>item. renders (property item (ascii ''price'')))
      (filter named (items data))"
    by (auto simp: list_all_iff intro: plain_amount_renders)
  with h have "returns_receipt data"
    by (simp add: returns_receipt_def plain_amount_renders)
  then obtain r where "normalizeReceipt now data = Inr r"
    using normalizeReceipt_returns by blast
  then show "\<exists>r. normalizeReceipt now data = Inr r \<and> well_formed r"
    using normalizeReceipt_well_formed by blast
next
  assume "normalizeReceipt now data = Inr r"
  then show "well_formed r" by (rule normalizeReceipt_well_formed)
next
  assume "nullish data"
  then show "normalizeReceipt now data = Inl TypeError"
    by (simp add: normalizeReceipt_def safeStoreName_def get_def)
next
  assume h: "\<not> nullish data \<and> property data (ascii ''total'') = JObj kvs
       \<and> ascii ''toString'' \<in> fst ` set kvs"
  then have "rawTotal data = Inl TypeError"
    by (simp add: rawTotal_def js_or_def)
  then have "numericTotal data = Inl TypeError" by (simp add: numericTotal_def)
  with h show "normalizeReceipt now data = Inl TypeError"
    by (simp add: normalizeReceipt_def safeStoreName_def get_def)
qed

theorem normalization_outcome_witness:
  "\<not> nullish (JObj [(ascii ''total'', JStr (ascii ''-2,580'')),
                     (ascii ''items'', JArr [JObj [(ascii ''name'', JStr (ascii ''Tea'')),
                                                  (ascii ''price'', JNum (ascii ''120''))]])])
   \<and> plain_amount (JStr (ascii ''-2,580'')) \<and> plain_amount (JNum (ascii ''120''))
   \<and> (\<exists>r. normalizeReceipt sample_now
             (JObj [(ascii ''total'', JStr (ascii ''-2,580'')),
                    (ascii ''items'', JArr [JObj [(ascii ''name'', JStr (ascii ''Tea'')),
                                                 (ascii ''price'', JNum (ascii ''120''))]])])
           = Inr r
          \<and> well_formed r)
   \<and> nullish JNull \<and> normalizeReceipt other_now JNull = Inl TypeError
   \<and> ascii ''toString'' \<in> fst ` set [(ascii ''toString'', JNull)]
   \<and> normalizeReceipt sample_now (JObj [(ascii ''total'', JObj [(ascii ''toString'', JNull)])])
       = Inl TypeError"
  (is "\<not> nullish ?D \<and> _ \<and> _ \<and> ?E \<and> _ \<and> _ \<and> _ \<and> _")
proof -
  have n: "\<not> nullish ?D" "nullish JNull"
    "\<not> nullish (JObj [(ascii ''total'', JObj [(ascii ''toString'', JNull)])])"
    by (simp_all add: nullish_def)
  have p: "plain_amount (JStr (ascii ''-2,580''))" "plain_amount (JNum (ascii ''120''))"
    by (simp_all add: plain_amount_def)
  have t: "property ?D (ascii ''total'') = JStr (ascii ''-2,580'')"
    "property (JObj [(ascii ''total'', JObj [(ascii ''toString'', JNull)])]) (ascii ''total'')
       = JObj [(ascii ''toString'', JNull)]"
    by (simp_all add: property_def)
  have i: "filter named (items ?D)
      = [JObj [(ascii ''name'', JStr (ascii ''Tea'')), (ascii ''price'', JNum (ascii ''120''))]]"
    by (simp add: items_def named_def property_def ascii_def)
  have l: "list_all (\<lambda>item. plain_amount (property item (ascii ''price'')))
      (filter named (items ?D))"
    unfolding i by (simp add: property_def ascii_def plain_amount_def)
  have k: "ascii ''toString'' \<in> fst ` set [(ascii ''toString'', JNull)]" by simp
  have e: ?E
    using normalization_outcome[of ?D sample_now] n(1) p(1) t(1) l by simp
  have a: "normalizeReceipt other_now JNull = Inl TypeError"
    using normalization_outcome[of JNull other_now] n(2) by simp
  have b: "normalizeReceipt sample_now (JObj [(ascii ''total'', JObj [(ascii ''toString'', JNull)])])
      = Inl TypeError"
    using normalization_outcome[of "JObj [(ascii ''total'', JObj [(ascii ''toString'', JNull)])]"
        sample_now _ "[(ascii ''toString'', JNull)]"] n(3) t(2) k
    by simp
  show ?thesis using n(1,2) p e a b k by simp
qed

subsection \<open>C3: the sign of the amounts\<close>

text \<open>
  C3 says that the total and the prices are non-negative integers. A total of
  \<open>-2,580\<close> is parsed as the negative integer and printed with its sign.
\<close>

theorem negative_total:
  "numericTotal (JObj [(ascii ''total'', JStr (ascii ''-2,580''))]) = Inr (Fin (- 2580))
   \<and> normalizeReceipt sample_now (JObj [(ascii ''total'', JStr (ascii ''-2,580''))])
       = Inr (JObj [(ascii ''storeName'', JStr unknown_store),
                    (ascii ''date'', JStr (format_date sample_now)),
                    (ascii ''total'', JStr (ascii ''-2,580'')),
                    (ascii ''categoryId'', JStr (ascii ''other'')),
                    (ascii ''items'',
                       JArr [JObj [(ascii ''name'', JStr generic_item),
                                   (ascii ''price'', JStr (ascii ''-2,580'')),
                                   (ascii ''categoryId'', JStr (ascii ''other''))]])])"
  by (simp add: eval_simps)

text \<open>
  C3 as amended: when the total (or the price of an item) has a text, the amount parsed
  from it is a number, never \<^verbatim>\<open>NaN\<close>, whose magnitude is an integer that is a double, or
  an infinity; it is non-negative when the text with its commas stripped does not start,
  after white space, with a minus sign.
\<close>

theorem amounts_are_numbers:
  "(rawTotal data = Inr raw \<longrightarrow>
      (\<exists>t. numericTotal data = Inr t \<and> t \<noteq> NaN \<and> double_valued t
           \<and> (\<not> minus_first raw \<longrightarrow> non_negative t)))
   \<and> (itemRaw item = Inr raw' \<longrightarrow>
      (\<exists>p. itemPrice item = Inr p \<and> p \<noteq> NaN \<and> double_valued p
           \<and> (\<not> minus_first raw' \<longrightarrow> non_negative p)))"
  by (simp add: numericTotal_def itemPrice_def double_valued_amount parse_sign)

theorem amounts_are_numbers_witness:
  "rawTotal (JObj [(ascii ''total'', JStr (ascii ''2,580''))]) = Inr (ascii ''2580'')
   \<and> \<not> minus_first (ascii ''2580'')
   \<and> itemRaw (JObj [(ascii ''price'', JStr (ascii ''abc''))]) = Inr (ascii ''abc'')
   \<and> \<not> minus_first (ascii ''abc'')
   \<and> (\<exists>t. numericTotal (JObj [(ascii ''total'', JStr (ascii ''2,580''))]) = Inr t
          \<and> t \<noteq> NaN \<and> double_valued t \<and> non_negative t)
   \<and> (\<exists>p. itemPrice (JObj [(ascii ''price'', JStr (ascii ''abc''))]) = Inr p
          \<and> p \<noteq> NaN \<and> double_valued p \<and> non_negative p)"
proof -
  have a: "rawTotal (JObj [(ascii ''total'', JStr (ascii ''2,580''))]) = Inr (ascii ''2580'')"
    by (simp add: eval_simps)
  have b: "\<not> minus_first (ascii ''2580'')" "\<not> minus_first (ascii ''abc'')"
    by (simp_all add: minus_first_def eval_simps)
  have c: "itemRaw (JObj [(ascii ''price'', JStr (ascii ''abc''))]) = Inr (ascii ''abc'')"
    by (simp add: eval_simps)
  show ?thesis
    using a b c
      amounts_are_numbers[of "JObj [(ascii ''total'', JStr (ascii ''2,580''))]" "ascii ''2580''"
        "JObj [(ascii ''price'', JStr (ascii ''abc''))]" "ascii ''abc''"]
    by blast
qed

subsection \<open>C4: parsing the total\<close>

text \<open>
  C4: both commas are stripped from the text of the total and the rest is read as a
  base-10 integer; when that fails, or the total is missing, the parsed total is zero. For
  a text of digits and commas with a digit, the parsed total is the double nearest to the
  decimal value of the digits, the value itself below \<open>2 ^ 53\<close>. The witness runs the
  four examples of the claim: \<open>2,580\<close>, the same with the full-width comma,
  \<open>abc\<close> and a missing total.
\<close>

theorem total_parsing:
  "(property data (ascii ''total'') = JStr s
      \<and> (\<forall>c \<in> set s. isDigit c \<or> c = 44 \<or> c = 65292) \<and> (\<exists>c \<in> set s. isDigit c)
      \<longrightarrow> numericTotal data = Inr (signed_amount False (decimal (strip_commas s)))
          \<and> (decimal (strip_commas s) < 2 ^ 53
               \<longrightarrow> numericTotal data = Inr (Fin (int (decimal (strip_commas s))))))
   \<and> (property data (ascii ''total'') = JStr s \<and> isNaN (parseInt (strip_commas s))
      \<longrightarrow> numericTotal data = Inr (Fin 0))
   \<and> (\<not> truthy (property data (ascii ''total'')) \<longrightarrow> numericTotal data = Inr (Fin 0))"
proof (intro conjI impI)
  assume h: "property data (ascii ''total'') = JStr s
      \<and> (\<forall>c \<in> set s. isDigit c \<or> c = 44 \<or> c = 65292) \<and> (\<exists>c \<in> set s. isDigit c)"
  let ?ds = "strip_commas s"
  have all: "\<forall>c \<in> set ?ds. isDigit c" using h by (auto simp: strip_commas_def)
  have ne: "?ds \<noteq> []" using h by (auto simp: strip_commas_def filter_empty_conv dest: isDigit_simps)
  have p: "parseInt ?ds = signed_amount False (decimal ?ds)"
    using parseInt_prefix[of "[]" "[]" ?ds "[]"] all ne by simp
  show t: "numericTotal data = Inr (signed_amount False (decimal ?ds))"
    using h by (simp add: numericTotal_text p signed_amount_not_NaN)
  show "numericTotal data = Inr (Fin (int (decimal ?ds)))" if "decimal ?ds < 2 ^ 53"
    using t that by (simp add: signed_amount_def to_double_small)
next
  assume "property data (ascii ''total'') = JStr s \<and> isNaN (parseInt (strip_commas s))"
  then show "numericTotal data = Inr (Fin 0)" by (simp add: numericTotal_text)
next
  assume "\<not> truthy (property data (ascii ''total''))"
  then show "numericTotal data = Inr (Fin 0)" by (rule numericTotal_missing)
qed

theorem total_parsing_witness:
  "numericTotal (JObj [(ascii ''total'', JStr (ascii ''2,580''))]) = Inr (Fin 2580)
   \<and> numericTotal (JObj [(ascii ''total'', JStr [50, 65292, 53, 56, 48])]) = Inr (Fin 2580)
   \<and> isNaN (parseInt (strip_commas (ascii ''abc'')))
   \<and> numericTotal (JObj [(ascii ''total'', JStr (ascii ''abc''))]) = Inr (Fin 0)
   \<and> \<not> truthy (property (JObj []) (ascii ''total''))
   \<and> numericTotal (JObj []) = Inr (Fin 0)"
proof -
  have d: "decimal (strip_commas (ascii ''2,580'')) = 2580"
    "decimal (strip_commas [50, 65292, 53, 56, 48]) = 2580"
    by (simp_all add: strip_commas_def ascii_def)
  have p: "property (JObj [(ascii ''total'', JStr t)]) (ascii ''total'') = JStr t" for t
    by (simp add: property_def)
  have h: "\<forall>c \<in> set (ascii ''2,580''). isDigit c \<or> c = 44 \<or> c = 65292"
    "\<exists>c \<in> set (ascii ''2,580''). isDigit c"
    "\<forall>c \<in> set [50, 65292, 53, 56, 48]. isDigit c \<or> c = 44 \<or> c = 65292"
    "\<exists>c \<in> set [50, 65292, 53, 56, 48]. isDigit c"
    by (simp_all add: ascii_def isDigit_def)
  have lt: "decimal (strip_commas (ascii ''2,580'')) < 2 ^ 53"
    "decimal (strip_commas [50, 65292, 53, 56, 48]) < 2 ^ 53"
    by (simp_all add: d)
  have "numericTotal (JObj [(ascii ''total'', JStr (ascii ''2,580''))])
      = Inr (Fin (int (decimal (strip_commas (ascii ''2,580'')))))"
    using total_parsing[of "JObj [(ascii ''total'', JStr (ascii ''2,580''))]" "ascii ''2,580''"]
      p h(1,2) lt(1)
    by blast
  then have a: "numericTotal (JObj [(ascii ''total'', JStr (ascii ''2,580''))]) = Inr (Fin 2580)"
    by (simp add: d)
  have "numericTotal (JObj [(ascii ''total'', JStr [50, 65292, 53, 56, 48])])
      = Inr (Fin (int (decimal (strip_commas [50, 65292, 53, 56, 48]))))"
    using total_parsing[of "JObj [(ascii ''total'', JStr [50, 65292, 53, 56, 48])]"
        "[50, 65292, 53, 56, 48]"] p h(3,4) lt(2)
    by blast
  then have b: "numericTotal (JObj [(ascii ''total'', JStr [50, 65292, 53, 56, 48])])
      = Inr (Fin 2580)"
    by (simp add: d)
  have n: "isNaN (parseInt (strip_commas (ascii ''abc'')))"
    by (simp add: eval_simps)
  have c: "numericTotal (JObj [(ascii ''total'', JStr (ascii ''abc''))]) = Inr (Fin 0)"
    using total_parsing[of "JObj [(ascii ''total'', JStr (ascii ''abc''))]" "ascii ''abc''"] n p
    by simp
  have m: "\<not> truthy (property (JObj []) (ascii ''total''))"
    by (simp add: property_def)
  have e: "numericTotal (JObj []) = Inr (Fin 0)"
    using total_parsing[of "JObj []"] m by simp
  show ?thesis using a b n c m e by simp
qed

subsection \<open>C5: the item of a receipt without named items\<close>

text \<open>
  C5: when no raw item passes the filter on names, which is so when the items are
  missing, not an array, empty, or all without a truthy name, the receipt returned has
  exactly one item, named by the placeholder, with the formatted total as price and the
  receipt's resolved category; and a receipt is returned for every such input that is not
  \<^verbatim>\<open>null\<close> and whose total has a text. Hence the items of a returned receipt are never
  empty.
\<close>

theorem fallback_item:
  "(normalizeReceipt now data = Inr r \<and> filter named (items data) = []
    \<longrightarrow> (\<exists>t. numericTotal data = Inr t
              \<and> property r (ascii ''total'') = JStr (toLocaleString t))
        \<and> property r (ascii ''categoryId'') = categoryId data
        \<and> property r (ascii ''items'')
            = JArr [JObj [(ascii ''name'', JStr generic_item),
                          (ascii ''price'', property r (ascii ''total'')),
                          (ascii ''categoryId'', property r (ascii ''categoryId''))]])
   \<and> (\<not> nullish data \<and> renders (property data (ascii ''total''))
      \<and> filter named (items data) = []
    \<longrightarrow> (\<exists>r t. normalizeReceipt now data = Inr r \<and> numericTotal data = Inr t
           \<and> property r (ascii ''total'') = JStr (toLocaleString t)
           \<and> property r (ascii ''categoryId'') = categoryId data
           \<and> property r (ascii ''items'')
               = JArr [JObj [(ascii ''name'', JStr generic_item),
                             (ascii ''price'', property r (ascii ''total'')),
                             (ascii ''categoryId'', property r (ascii ''categoryId''))]]))
   \<and> ((\<forall>xs. property data (ascii ''items'') \<noteq> JArr xs)
        \<or> (\<exists>xs. property data (ascii ''items'') = JArr xs
                \<and> (\<forall>x \<in> set xs. \<not> truthy (property x (ascii ''name''))))
      \<longrightarrow> filter named (items data) = [])
   \<and> (normalizeReceipt now data = Inr r
      \<longrightarrow> (\<exists>its. property r (ascii ''items'') = JArr its \<and> its \<noteq> []))"
proof (intro conjI impI)
  assume h: "normalizeReceipt now data = Inr r \<and> filter named (items data) = []"
  then obtain a t ms where t: "numericTotal data = Inr t" and ms: "mappedItems data = Inr ms"
    and r: "r = result a (safeDate now data) t (categoryId data) ms"
    by (blast elim: normalizeReceipt_Inr)
  from h ms have e: "ms = []" by (simp add: mappedItems_def)
  show "\<exists>t. numericTotal data = Inr t \<and> property r (ascii ''total'') = JStr (toLocaleString t)"
    using t by (simp add: r property_result)
  show "property r (ascii ''categoryId'') = categoryId data"
    by (simp add: r property_result)
  show "property r (ascii ''items'')
      = JArr [JObj [(ascii ''name'', JStr generic_item),
                    (ascii ''price'', property r (ascii ''total'')),
                    (ascii ''categoryId'', property r (ascii ''categoryId''))]]"
    by (simp add: r e property_result)
next
  assume h: "\<not> nullish data \<and> renders (property data (ascii ''total''))
      \<and> filter named (items data) = []"
  then obtain a t where a: "safeStoreName data = Inr a" and t: "numericTotal data = Inr t"
    using safeStoreName_returns numericTotal_renders by blast
  have ms: "mappedItems data = Inr []" using h by (simp add: mappedItems_def)
  have "normalizeReceipt now data = Inr (result a (safeDate now data) t (categoryId data) [])"
    by (simp add: normalizeReceipt_def a t ms)
  then show "\<exists>r t. normalizeReceipt now data = Inr r \<and> numericTotal data = Inr t
           \<and> property r (ascii ''total'') = JStr (toLocaleString t)
           \<and> property r (ascii ''categoryId'') = categoryId data
           \<and> property r (ascii ''items'')
               = JArr [JObj [(ascii ''name'', JStr generic_item),
                             (ascii ''price'', property r (ascii ''total'')),
                             (ascii ''categoryId'', property r (ascii ''categoryId''))]]"
    using t by (simp add: property_result)
next
  assume "(\<forall>xs. property data (ascii ''items'') \<noteq> JArr xs)
        \<or> (\<exists>xs. property data (ascii ''items'') = JArr xs
                \<and> (\<forall>x \<in> set xs. \<not> truthy (property x (ascii ''name''))))"
  then show "filter named (items data) = []"
  proof
    assume "\<forall>xs. property data (ascii ''items'') \<noteq> JArr xs"
    then show ?thesis by (simp add: items_not_array)
  next
    assume "\<exists>xs. property data (ascii ''items'') = JArr xs
                \<and> (\<forall>x \<in> set xs. \<not> truthy (property x (ascii ''name'')))"
    then show ?thesis by (auto simp: items_def named_def filter_empty_conv)
  qed
next
  assume "normalizeReceipt now data = Inr r"
  then obtain a t ms where "r = result a (safeDate now data) t (categoryId data) ms"
    by (rule normalizeReceipt_Inr)
  then show "\<exists>its. property r (ascii ''items'') = JArr its \<and> its \<noteq> []"
    by (simp add: property_result)
qed

theorem fallback_item_witness:
  "\<not> nullish (JObj [(ascii ''total'', JStr (ascii ''2,580'')),
                     (ascii ''categoryId'', JStr (ascii ''food'')),
                     (ascii ''items'', JArr [JObj [(ascii ''name'', JStr []),
                                                  (ascii ''price'', JStr (ascii ''100''))]])])
   \<and> normalizeReceipt sample_now
        (JObj [(ascii ''total'', JStr (ascii ''2,580'')),
               (ascii ''categoryId'', JStr (ascii ''food'')),
               (ascii ''items'', JArr [JObj [(ascii ''name'', JStr []),
                                            (ascii ''price'', JStr (ascii ''100''))]])])
      = Inr (JObj [(ascii ''storeName'', JStr unknown_store),
                   (ascii ''date'', JStr (format_date sample_now)),
                   (ascii ''total'', JStr (ascii ''2,580'')),
                   (ascii ''categoryId'', JStr (ascii ''food'')),
                   (ascii ''items'',
                      JArr [JObj [(ascii ''name'', JStr generic_item),
                                  (ascii ''price'', JStr (ascii ''2,580'')),
                                  (ascii ''categoryId'', JStr (ascii ''food''))]])])
   \<and> (\<exists>its. property
          (JObj [(ascii ''storeName'', JStr unknown_store),
                   (ascii ''date'', JStr (format_date sample_now)),
                   (ascii ''total'', JStr (ascii ''2,580'')),
                   (ascii ''categoryId'', JStr (ascii ''food'')),
                   (ascii ''items'',
                      JArr [JObj [(ascii ''name'', JStr generic_item),
                                  (ascii ''price'', JStr (ascii ''2,580'')),
                                  (ascii ''categoryId'', JStr (ascii ''food''))]])])
          (ascii ''items'') = JArr its \<and> its \<noteq> [])"
  (is "\<not> nullish ?D \<and> normalizeReceipt sample_now ?D = Inr ?R \<and> ?E")
proof -
  have n: "\<not> nullish ?D" by (simp add: nullish_def)
  have r: "renders (property ?D (ascii ''total''))" by (simp add: renders_def eval_simps)
  have f: "\<exists>xs. property ?D (ascii ''items'') = JArr xs
                \<and> (\<forall>x \<in> set xs. \<not> truthy (property x (ascii ''name'')))"
    by (simp add: property_def ascii_def)
  have e: "normalizeReceipt sample_now ?D = Inr ?R" by (simp add: eval_simps)
  from fallback_item[of sample_now ?D ?R] f have "filter named (items ?D) = []" by blast
  with fallback_item[of sample_now ?D ?R] n r e show ?thesis by blast
qed

subsection \<open>C6: normalizing a normalized receipt\<close>

text \<open>
  C6 says that every receipt the normalization returns is normalized to a receipt with
  the same content. A total of 1 followed by 309 zeros is above every double:
  \<^verbatim>\<open>parseInt\<close> returns \<^verbatim>\<open>Infinity\<close>, printed as U+221E, and that text is not a number for
  the second run, which prints \<open>0\<close> for the total and for the price of the item.
\<close>

theorem overflowing_total_not_idempotent:
  "normalizeReceipt sample_now (JObj [(ascii ''total'', JStr (49 # replicate 309 48))])
     = Inr (JObj [(ascii ''storeName'', JStr unknown_store),
                  (ascii ''date'', JStr (format_date sample_now)),
                  (ascii ''total'', JStr [8734]),
                  (ascii ''categoryId'', JStr (ascii ''other'')),
                  (ascii ''items'',
                     JArr [JObj [(ascii ''name'', JStr generic_item),
                                 (ascii ''price'', JStr [8734]),
                                 (ascii ''categoryId'', JStr (ascii ''other''))]])])
   \<and> normalizeReceipt sample_now
        (JObj [(ascii ''storeName'', JStr unknown_store),
               (ascii ''date'', JStr (format_date sample_now)),
               (ascii ''total'', JStr [8734]),
               (ascii ''categoryId'', JStr (ascii ''other'')),
               (ascii ''items'',
                  JArr [JObj [(ascii ''name'', JStr generic_item),
                              (ascii ''price'', JStr [8734]),
                              (ascii ''categoryId'', JStr (ascii ''other''))]])])
     = Inr (JObj [(ascii ''storeName'', JStr unknown_store),
                  (ascii ''date'', JStr (format_date sample_now)),
                  (ascii ''total'', JStr (ascii ''0'')),
                  (ascii ''categoryId'', JStr (ascii ''other'')),
                  (ascii ''items'',
                     JArr [JObj [(ascii ''name'', JStr generic_item),
                                 (ascii ''price'', JStr (ascii ''0'')),
                                 (ascii ''categoryId'', JStr (ascii ''other''))]])])
   \<and> JStr [8734] \<noteq> JStr (ascii ''0'')"
proof (intro conjI)
  show "JStr [8734] \<noteq> JStr (ascii ''0'')" by (simp add: ascii_def)
next
  let ?D = "JObj [(ascii ''total'', JStr (49 # replicate 309 48))]"
  have "rawTotal ?D = Inr (49 # replicate 309 48)"
    by (simp add: rawTotal_def property_def js_or_def strip_commas_def)
  then have nt: "numericTotal ?D = Inr Infinity"
    by (simp add: numericTotal_def parseInt_overflow isNaN_def)
  show "normalizeReceipt sample_now ?D
     = Inr (JObj [(ascii ''storeName'', JStr unknown_store),
                  (ascii ''date'', JStr (format_date sample_now)),
                  (ascii ''total'', JStr [8734]),
                  (ascii ''categoryId'', JStr (ascii ''other'')),
                  (ascii ''items'',
                     JArr [JObj [(ascii ''name'', JStr generic_item),
                                 (ascii ''price'', JStr [8734]),
                                 (ascii ''categoryId'', JStr (ascii ''other''))]])])"
    unfolding normalizeReceipt_def nt
    by (simp add: safeStoreName_def get_def nullish_def property_def js_or_def safeDate_def
        mappedItems_def items_def categoryId_def result_def toLocaleString_def ascii_def)
next
  show "normalizeReceipt sample_now
        (JObj [(ascii ''storeName'', JStr unknown_store),
               (ascii ''date'', JStr (format_date sample_now)),
               (ascii ''total'', JStr [8734]),
               (ascii ''categoryId'', JStr (ascii ''other'')),
               (ascii ''items'',
                  JArr [JObj [(ascii ''name'', JStr generic_item),
                              (ascii ''price'', JStr [8734]),
                              (ascii ''categoryId'', JStr (ascii ''other''))]])])
     = Inr (JObj [(ascii ''storeName'', JStr unknown_store),
                  (ascii ''date'', JStr (format_date sample_now)),
                  (ascii ''total'', JStr (ascii ''0'')),
                  (ascii ''categoryId'', JStr (ascii ''other'')),
                  (ascii ''items'',
                     JArr [JObj [(ascii ''name'', JStr generic_item),
                                 (ascii ''price'', JStr (ascii ''0'')),
                                 (ascii ''categoryId'', JStr (ascii ''other''))]])])"
    by (simp add: eval_simps date_simps unknown_store_def generic_item_def)
qed

text \<open>
  C6 as amended: a receipt the normalization returns, none of whose amounts is the
  rendering of an infinity, is normalized to itself, whatever the clock then reads: the
  same store name, date, total, category and items, with the same names, prices and
  categories.
\<close>

theorem idempotent_on_finite_amounts:
  assumes "normalizeReceipt now data = Inr r" "finite_amounts r"
  shows "normalizeReceipt now' r = Inr r"
proof -
  from assms(1) obtain a t ms where
    a: "safeStoreName data = Inr a" and t: "numericTotal data = Inr t"
    and ms: "mappedItems data = Inr ms"
    and r: "r = result a (safeDate now data) t (categoryId data) ms"
    by (rule normalizeReceipt_Inr)
  have fin_t: "t \<noteq> Infinity" "t \<noteq> NegInfinity"
    using assms(2) by (auto simp: finite_amounts_def r property_result toLocaleString_Infinity)
  have items_r: "set ms \<subseteq> set (items r)"
    by (simp add: items_def r property_result)
  have "named m \<and> mapped r m = Inr m" if "m \<in> set ms" for m
  proof -
    from mappedItems_shape[OF ms that] obtain x where "named x" "mapped data x = Inr m"
      by auto
    then obtain n p k where
      m: "m = JObj [(ascii ''name'', n), (ascii ''price'', JStr (toLocaleString p)),
                    (ascii ''categoryId'', k)]"
      and nk: "truthy n" "truthy k" and p: "double_valued p" "p \<noteq> NaN"
      using mapped_shape by blast
    from that items_r have "m \<in> set (items r)" by blast
    with assms(2) have "property m (ascii ''price'') \<noteq> JStr [8734]"
      "property m (ascii ''price'') \<noteq> JStr [45, 8734]"
      by (auto simp: finite_amounts_def)
    then have "p \<noteq> Infinity" "p \<noteq> NegInfinity"
      by (auto simp: m property_item toLocaleString_Infinity)
    with mapped_fixed[OF nk p _ _ m] show ?thesis by simp
  qed
  then show ?thesis
    unfolding r
    using normalize_fixed[OF safeStoreName_truthy[OF a] safeDate_truthy categoryId_valid
        numericTotal_good[OF t] fin_t]
    by simp
qed

theorem idempotent_on_finite_amounts_witness:
  "normalizeReceipt sample_now
     (JObj [(ascii ''total'', JStr (ascii ''2,580'')),
            (ascii ''items'', JArr [JObj [(ascii ''name'', JStr (ascii ''Coffee'')),
                                         (ascii ''price'', JStr (ascii ''500'')),
                                         (ascii ''categoryId'', JStr (ascii ''food''))]])])
     = Inr (JObj [(ascii ''storeName'', JStr unknown_store),
                  (ascii ''date'', JStr (format_date sample_now)),
                  (ascii ''total'', JStr (ascii ''2,580'')),
                  (ascii ''categoryId'', JStr (ascii ''other'')),
                  (ascii ''items'',
                     JArr [JObj [(ascii ''name'', JStr (ascii ''Coffee'')),
                                 (ascii ''price'', JStr (ascii ''500'')),
                                 (ascii ''categoryId'', JStr (ascii ''food''))]])])
   \<and> finite_amounts
        (JObj [(ascii ''storeName'', JStr unknown_store),
               (ascii ''date'', JStr (format_date sample_now)),
               (ascii ''total'', JStr (ascii ''2,580'')),
               (ascii ''categoryId'', JStr (ascii ''other'')),
               (ascii ''items'',
                  JArr [JObj [(ascii ''name'', JStr (ascii ''Coffee'')),
                              (ascii ''price'', JStr (ascii ''500'')),
                              (ascii ''categoryId'', JStr (ascii ''food''))]])])
   \<and> normalizeReceipt other_now
        (JObj [(ascii ''storeName'', JStr unknown_store),
               (ascii ''date'', JStr (format_date sample_now)),
               (ascii ''total'', JStr (ascii ''2,580'')),
               (ascii ''categoryId'', JStr (ascii ''other'')),
               (ascii ''items'',
                  JArr [JObj [(ascii ''name'', JStr (ascii ''Coffee'')),
                              (ascii ''price'', JStr (ascii ''500'')),
                              (ascii ''categoryId'', JStr (ascii ''food''))]])])
     = Inr (JObj [(ascii ''storeName'', JStr unknown_store),
                  (ascii ''date'', JStr (format_date sample_now)),
                  (ascii ''total'', JStr (ascii ''2,580'')),
                  (ascii ''categoryId'', JStr (ascii ''other'')),
                  (ascii ''items'',
                     JArr [JObj [(ascii ''name'', JStr (ascii ''Coffee'')),
                                 (ascii ''price'', JStr (ascii ''500'')),
                                 (ascii ''categoryId'', JStr (ascii ''food''))]])])"
  (is "normalizeReceipt sample_now ?D = Inr ?R \<and> finite_amounts ?R
       \<and> normalizeReceipt other_now ?R = Inr ?R")
proof -
  have a: "normalizeReceipt sample_now ?D = Inr ?R" by (simp add: eval_simps)
  have b: "finite_amounts ?R" by (simp add: finite_amounts_def items_def property_def ascii_def)
  from idempotent_on_finite_amounts[OF a b, of other_now] a b show ?thesis by simp
qed

subsection \<open>C7: the clock is read for the date only\<close>

text \<open>
  C7: the normalization is a function of the input and of the clock. Two runs on the same
  input with the same clock reading give the same outcome, and when the raw date is
  present and truthy (a non-empty text is) the outcome is the same for every two clock
  readings. Moreover two clock readings can only change the date of the receipt
  returned, and never whether the normalization throws. The witness also runs an input
  without a date, on which the two clock readings give two receipts.
\<close>

theorem clock_only_for_date:
  "(now = now' \<longrightarrow> normalizeReceipt now data = normalizeReceipt now' data)
   \<and> (truthy (property data (ascii ''date''))
      \<longrightarrow> normalizeReceipt now data = normalizeReceipt now' data)
   \<and> (normalizeReceipt now data = Inr r \<and> normalizeReceipt now' data = Inr r'
      \<longrightarrow> (\<forall>k. k \<noteq> ascii ''date'' \<longrightarrow> property r k = property r' k))
   \<and> (normalizeReceipt now data = Inl e \<longrightarrow> normalizeReceipt now' data = Inl e)"
proof (intro conjI impI allI)
  assume "now = now'"
  then show "normalizeReceipt now data = normalizeReceipt now' data" by simp
next
  assume "truthy (property data (ascii ''date''))"
  then have "safeDate now data = safeDate now' data" by (simp add: safeDate_def js_or_def)
  then show "normalizeReceipt now data = normalizeReceipt now' data"
    unfolding normalizeReceipt_def by (simp only:)
next
  fix k
  assume h: "normalizeReceipt now data = Inr r \<and> normalizeReceipt now' data = Inr r'"
    and k: "k \<noteq> ascii ''date''"
  from h obtain a t ms where "safeStoreName data = Inr a" "numericTotal data = Inr t"
    "mappedItems data = Inr ms" and r: "r = result a (safeDate now data) t (categoryId data) ms"
    by (blast elim: normalizeReceipt_Inr)
  with h have "r' = result a (safeDate now' data) t (categoryId data) ms"
    by (simp add: normalizeReceipt_def)
  with r k show "property r k = property r' k" by (simp add: property_result_other)
next
  assume "normalizeReceipt now data = Inl e"
  then show "normalizeReceipt now' data = Inl e"
    by (auto simp: normalizeReceipt_def split: sum.splits)
qed

theorem clock_only_for_date_witness:
  "truthy (property (JObj [(ascii ''date'', JStr (ascii ''2024-01-05 10:00''))]) (ascii ''date''))
   \<and> normalizeReceipt sample_now (JObj [(ascii ''date'', JStr (ascii ''2024-01-05 10:00''))])
     = normalizeReceipt other_now (JObj [(ascii ''date'', JStr (ascii ''2024-01-05 10:00''))])
   \<and> normalizeReceipt sample_now (JObj [])
     \<noteq> normalizeReceipt other_now (JObj [])"
proof -
  have t: "truthy (property (JObj [(ascii ''date'', JStr (ascii ''2024-01-05 10:00''))])
      (ascii ''date''))"
    by (simp add: property_def ascii_def)
  have d: "normalizeReceipt sample_now (JObj []) \<noteq> normalizeReceipt other_now (JObj [])"
    by (simp add: eval_simps date_simps)
  from clock_only_for_date[of sample_now other_now
      "JObj [(ascii ''date'', JStr (ascii ''2024-01-05 10:00''))]"] t d
  show ?thesis by blast
qed

subsection \<open>C8: the integer at the start of a text\<close>

text \<open>
  C8: when the text of a total or of a price, its commas stripped, is an optional sign,
  digits, and then something that does not start with a digit, the parsed amount is the
  integer of the sign and the digits, not zero: for \<open>2,580\<close> followed by U+5186 it is
  2580. White space before the sign is skipped too. Zero is substituted only when the
  stripped text does not start with an integer.
\<close>

theorem prefix_parsing:
  "((\<forall>c \<in> set ws. isWhiteSpace c) \<and> (sign = [] \<or> sign = [43] \<or> sign = [45])
      \<and> ds \<noteq> [] \<and> (\<forall>c \<in> set ds. isDigit c) \<and> (rest = [] \<or> \<not> isDigit (hd rest))
      \<and> strip_commas s = ws @ sign @ ds @ rest
    \<longrightarrow> (property data (ascii ''total'') = JStr s
           \<longrightarrow> numericTotal data = Inr (signed_amount (sign = [45]) (decimal ds)))
        \<and> (property item (ascii ''price'') = JStr s
           \<longrightarrow> itemPrice item = Inr (signed_amount (sign = [45]) (decimal ds)))
        \<and> (0 < decimal ds \<and> decimal ds < 2 ^ 53
           \<longrightarrow> signed_amount (sign = [45]) (decimal ds)
               = Fin (if sign = [45] then - int (decimal ds) else int (decimal ds))))
   \<and> (property data (ascii ''total'') = JStr s
      \<longrightarrow> numericTotal data
          = Inr (if starts_with_integer (strip_commas s) then parseInt (strip_commas s) else Fin 0))
   \<and> (property item (ascii ''price'') = JStr s
      \<longrightarrow> itemPrice item
          = Inr (if starts_with_integer (strip_commas s) then parseInt (strip_commas s) else Fin 0))"
proof (intro conjI impI)
  assume h: "(\<forall>c \<in> set ws. isWhiteSpace c) \<and> (sign = [] \<or> sign = [43] \<or> sign = [45])
      \<and> ds \<noteq> [] \<and> (\<forall>c \<in> set ds. isDigit c) \<and> (rest = [] \<or> \<not> isDigit (hd rest))
      \<and> strip_commas s = ws @ sign @ ds @ rest"
  then have p: "parseInt (strip_commas s) = signed_amount (sign = [45]) (decimal ds)"
    using parseInt_prefix[of ws sign ds rest] by simp
  show "numericTotal data = Inr (signed_amount (sign = [45]) (decimal ds))"
    if "property data (ascii ''total'') = JStr s"
    using that by (simp add: numericTotal_text p signed_amount_not_NaN)
  show "itemPrice item = Inr (signed_amount (sign = [45]) (decimal ds))"
    if "property item (ascii ''price'') = JStr s"
    using that by (simp add: itemPrice_text p signed_amount_not_NaN)
  show "signed_amount (sign = [45]) (decimal ds)
      = Fin (if sign = [45] then - int (decimal ds) else int (decimal ds))"
    if "0 < decimal ds \<and> decimal ds < 2 ^ 53"
    using that by (simp add: signed_amount_def to_double_small)
next
  assume "property data (ascii ''total'') = JStr s"
  then show "numericTotal data
      = Inr (if starts_with_integer (strip_commas s) then parseInt (strip_commas s) else Fin 0)"
    by (simp add: numericTotal_text parseInt_NaN_iff)
next
  assume "property item (ascii ''price'') = JStr s"
  then show "itemPrice item
      = Inr (if starts_with_integer (strip_commas s) then parseInt (strip_commas s) else Fin 0)"
    by (simp add: itemPrice_text parseInt_NaN_iff)
qed

theorem prefix_parsing_witness:
  "strip_commas (ascii ''2,580'' @ [20870]) = [] @ [] @ ascii ''2580'' @ [20870]
   \<and> \<not> isDigit (hd [20870])
   \<and> numericTotal (JObj [(ascii ''total'', JStr (ascii ''2,580'' @ [20870]))]) = Inr (Fin 2580)
   \<and> itemPrice (JObj [(ascii ''price'', JStr (ascii ''2,580'' @ [20870]))]) = Inr (Fin 2580)
   \<and> \<not> starts_with_integer (strip_commas ([20870] @ ascii ''2,580''))
   \<and> numericTotal (JObj [(ascii ''total'', JStr ([20870] @ ascii ''2,580''))]) = Inr (Fin 0)"
proof -
  have s: "strip_commas (ascii ''2,580'' @ [20870]) = [] @ [] @ ascii ''2580'' @ [20870]"
    by (simp add: strip_commas_def ascii_def)
  have d: "\<not> isDigit (hd [20870])" "\<forall>c \<in> set (ascii ''2580''). isDigit c"
    "decimal (ascii ''2580'') = 2580" "ascii ''2580'' \<noteq> []"
    by (simp_all add: isDigit_def ascii_def)
  have p: "property (JObj [(ascii ''total'', JStr t)]) (ascii ''total'') = JStr t"
    "property (JObj [(ascii ''price'', JStr t)]) (ascii ''price'') = JStr t" for t
    by (simp_all add: property_def)
  have n: "\<not> starts_with_integer (strip_commas ([20870] @ ascii ''2,580''))"
    by (simp add: starts_with_integer_def strip_commas_def ascii_def isWhiteSpace_def isDigit_def)
  have a: "numericTotal (JObj [(ascii ''total'', JStr (ascii ''2,580'' @ [20870]))]) = Inr (Fin 2580)"
    "itemPrice (JObj [(ascii ''price'', JStr (ascii ''2,580'' @ [20870]))]) = Inr (Fin 2580)"
    using prefix_parsing[of "[]" "[]" "ascii ''2580''" "[20870]" "ascii ''2,580'' @ [20870]"
        "JObj [(ascii ''total'', JStr (ascii ''2,580'' @ [20870]))]"
        "JObj [(ascii ''price'', JStr (ascii ''2,580'' @ [20870]))]"] s d p
    by simp_all
  have b: "numericTotal (JObj [(ascii ''total'', JStr ([20870] @ ascii ''2,580''))]) = Inr (Fin 0)"
    using prefix_parsing[of "[]" "[]" "[]" "[]" "[20870] @ ascii ''2,580''"
        "JObj [(ascii ''total'', JStr ([20870] @ ascii ''2,580''))]"] n p
    by simp
  show ?thesis using s d(1) a n b by simp
qed

subsection \<open>C9: the guards of the handler\<close>

text \<open>
  C9 says that a request whose method is not POST is answered with status 405 before
  anything else, and that likewise a missing or non-string \<open>imageSrc\<close> is answered with
  status 400. Between the two guards the handler checks the API key: a POST request
  without \<open>imageSrc\<close>, on a server whose key is not set, is answered with status 500.
\<close>

theorem missing_key_answers_500:
  "handler unconfigured_world \<lparr>req_method = ascii ''POST'', body = JObj []\<rparr>
     = [Respond 500 (error_body (ascii ''OPENAI_API_KEY is not set on the server.''))]
   \<and> property (js_or (JObj []) (JObj [])) (ascii ''imageSrc'') = JUndefined"
  by (simp add: handler_def unconfigured_world_def property_def js_or_def)

text \<open>
  C9 as amended: a request whose method is not POST is answered with status 405 and the
  body \<open>{error: Method not allowed}\<close>, and nothing else happens: the body of the request
  is not read and the remote API is not called. A POST request on a server whose API key
  is set, whose \<open>imageSrc\<close> is missing, falsy or not a string, is answered with status
  400 and an error body, after the body of the request is read and without a call to the
  remote API. A POST request on a server whose key is not set is answered with status 500.
\<close>

theorem handler_guards:
  "(req_method req \<noteq> ascii ''POST''
      \<longrightarrow> handler w req = [Respond 405 (error_body (ascii ''Method not allowed''))])
   \<and> (req_method req = ascii ''POST'' \<and> apiKey w = Some key \<and> key \<noteq> []
       \<and> (\<not> truthy (property (js_or (body req) (JObj [])) (ascii ''imageSrc''))
          \<or> \<not> is_text (property (js_or (body req) (JObj [])) (ascii ''imageSrc'')))
      \<longrightarrow> handler w req = [ReadBody, Respond 400 (error_body (ascii ''imageSrc is required.''))])
   \<and> (req_method req = ascii ''POST'' \<and> (apiKey w = None \<or> apiKey w = Some [])
      \<longrightarrow> handler w req
          = [Respond 500 (error_body (ascii ''OPENAI_API_KEY is not set on the server.''))])"
  by (auto simp: handler_def is_text_def Let_def split: json.splits option.splits)

theorem handler_guards_witness:
  "req_method \<lparr>req_method = ascii ''GET'', body = JObj [(ascii ''imageSrc'', JStr (ascii ''x''))]\<rparr>
     \<noteq> ascii ''POST''
   \<and> handler configured_world
        \<lparr>req_method = ascii ''GET'', body = JObj [(ascii ''imageSrc'', JStr (ascii ''x''))]\<rparr>
     = [Respond 405 (error_body (ascii ''Method not allowed''))]
   \<and> apiKey configured_world = Some (ascii ''sk-test'') \<and> ascii ''sk-test'' \<noteq> []
   \<and> \<not> is_text (property (js_or (JObj [(ascii ''imageSrc'', JNum (ascii ''42''))]) (JObj []))
        (ascii ''imageSrc''))
   \<and> handler configured_world
        \<lparr>req_method = ascii ''POST'', body = JObj [(ascii ''imageSrc'', JNum (ascii ''42''))]\<rparr>
     = [ReadBody, Respond 400 (error_body (ascii ''imageSrc is required.''))]
   \<and> \<not> truthy (property (js_or JUndefined (JObj [])) (ascii ''imageSrc''))
   \<and> handler configured_world \<lparr>req_method = ascii ''POST'', body = JUndefined\<rparr>
     = [ReadBody, Respond 400 (error_body (ascii ''imageSrc is required.''))]
   \<and> apiKey unconfigured_world = None
   \<and> handler unconfigured_world \<lparr>req_method = ascii ''POST'', body = JUndefined\<rparr>
     = [Respond 500 (error_body (ascii ''OPENAI_API_KEY is not set on the server.''))]"
proof -
  have m: "ascii ''GET'' \<noteq> ascii ''POST''" by (simp add: ascii_def)
  have k: "apiKey configured_world = Some (ascii ''sk-test'')" "ascii ''sk-test'' \<noteq> []"
    "apiKey unconfigured_world = None"
    by (simp_all add: configured_world_def unconfigured_world_def ascii_def)
  have i: "\<not> is_text (property (js_or (JObj [(ascii ''imageSrc'', JNum (ascii ''42''))]) (JObj []))
        (ascii ''imageSrc''))"
    "\<not> truthy (property (js_or JUndefined (JObj [])) (ascii ''imageSrc''))"
    by (simp_all add: is_text_def property_def js_or_def)
  have a: "handler configured_world
        \<lparr>req_method = ascii ''GET'', body = JObj [(ascii ''imageSrc'', JStr (ascii ''x''))]\<rparr>
     = [Respond 405 (error_body (ascii ''Method not allowed''))]"
    using handler_guards[of "\<lparr>req_method = ascii ''GET'',
        body = JObj [(ascii ''imageSrc'', JStr (ascii ''x''))]\<rparr>" configured_world] m
    by simp
  have b: "handler configured_world
        \<lparr>req_method = ascii ''POST'', body = JObj [(ascii ''imageSrc'', JNum (ascii ''42''))]\<rparr>
     = [ReadBody, Respond 400 (error_body (ascii ''imageSrc is required.''))]"
    using handler_guards[of "\<lparr>req_method = ascii ''POST'',
        body = JObj [(ascii ''imageSrc'', JNum (ascii ''42''))]\<rparr>" configured_world
        "ascii ''sk-test''"] k i
    by simp
  have c: "handler configured_world \<lparr>req_method = ascii ''POST'', body = JUndefined\<rparr>
     = [ReadBody, Respond 400 (error_body (ascii ''imageSrc is required.''))]"
    using handler_guards[of "\<lparr>req_method = ascii ''POST'', body = JUndefined\<rparr>"
        configured_world "ascii ''sk-test''"] k i
    by simp
  have d: "handler unconfigured_world \<lparr>req_method = ascii ''POST'', body = JUndefined\<rparr>
     = [Respond 500 (error_body (ascii ''OPENAI_API_KEY is not set on the server.''))]"
    using handler_guards[of "\<lparr>req_method = ascii ''POST'', body = JUndefined\<rparr>"
        unconfigured_world] k
    by simp
  show ?thesis using m k i a b c d by simp
qed

subsection \<open>C10: truthiness is what is checked\<close>

text \<open>
  C10: the store name and the names of the items are tested for truthiness only. A
  truthy store name, of any type, is the store name of the receipt returned; the items
  kept are those that are truthy and have a truthy name, and their names, of any type,
  are the names of the items of the receipt, in the same order. So the store name and
  the names of the output need not be strings: in the witness they are a number and an
  object.
\<close>

theorem truthy_values_pass_through:
  "(normalizeReceipt now data = Inr r \<and> truthy (property data (ascii ''storeName''))
      \<longrightarrow> property r (ascii ''storeName'') = property data (ascii ''storeName''))
   \<and> (normalizeReceipt now data = Inr r \<and> filter named (items data) \<noteq> []
      \<longrightarrow> (\<exists>ms. property r (ascii ''items'') = JArr ms
             \<and> map (\<lambda>m. property m (ascii ''name'')) ms
                 = map (\<lambda>item. property item (ascii ''name'')) (filter named (items data))))
   \<and> (item \<in> set (filter named (items data))
      \<longleftrightarrow> item \<in> set (items data) \<and> truthy item \<and> truthy (property item (ascii ''name'')))"
proof (intro conjI impI)
  assume h: "normalizeReceipt now data = Inr r \<and> truthy (property data (ascii ''storeName''))"
  then obtain a t ms where a: "safeStoreName data = Inr a"
    and r: "r = result a (safeDate now data) t (categoryId data) ms"
    by (blast elim: normalizeReceipt_Inr)
  from a h have "a = property data (ascii ''storeName'')"
    by (auto simp: safeStoreName_def get_def js_or_def split: if_splits)
  then show "property r (ascii ''storeName'') = property data (ascii ''storeName'')"
    by (simp add: r property_result)
next
  assume h: "normalizeReceipt now data = Inr r \<and> filter named (items data) \<noteq> []"
  then obtain a t ms where ms: "mappedItems data = Inr ms"
    and r: "r = result a (safeDate now data) t (categoryId data) ms"
    by (blast elim: normalizeReceipt_Inr)
  have names: "map (\<lambda>m. property m (ascii ''name'')) ms
      = map (\<lambda>item. property item (ascii ''name'')) (filter named (items data))"
    using ms unfolding mappedItems_def by (rule map_throwing_map) (rule mapped_name)
  then have "ms \<noteq> []" using h by auto
  then have "property r (ascii ''items'') = JArr ms" by (simp add: r property_result)
  with names show "\<exists>ms. property r (ascii ''items'') = JArr ms
             \<and> map (\<lambda>m. property m (ascii ''name'')) ms
                 = map (\<lambda>item. property item (ascii ''name'')) (filter named (items data))"
    by blast
next
  show "item \<in> set (filter named (items data))
      \<longleftrightarrow> item \<in> set (items data) \<and> truthy item \<and> truthy (property item (ascii ''name''))"
    by (auto simp: named_def)
qed

theorem truthy_values_pass_through_witness:
  "normalizeReceipt sample_now
     (JObj [(ascii ''storeName'', JNum (ascii ''42'')),
            (ascii ''items'', JArr [JObj [(ascii ''name'', JObj [(ascii ''ja'', JStr (ascii ''x''))])],
                                   JObj [(ascii ''name'', JNum (ascii ''7''))]])])
     = Inr (JObj [(ascii ''storeName'', JNum (ascii ''42'')),
                  (ascii ''date'', JStr (format_date sample_now)),
                  (ascii ''total'', JStr (ascii ''0'')),
                  (ascii ''categoryId'', JStr (ascii ''other'')),
                  (ascii ''items'',
                     JArr [JObj [(ascii ''name'', JObj [(ascii ''ja'', JStr (ascii ''x''))]),
                                 (ascii ''price'', JStr (ascii ''0'')),
                                 (ascii ''categoryId'', JStr (ascii ''other''))],
                           JObj [(ascii ''name'', JNum (ascii ''7'')),
                                 (ascii ''price'', JStr (ascii ''0'')),
                                 (ascii ''categoryId'', JStr (ascii ''other''))]])])
   \<and> truthy (property
        (JObj [(ascii ''storeName'', JNum (ascii ''42'')),
               (ascii ''items'', JArr [JObj [(ascii ''name'', JObj [(ascii ''ja'', JStr (ascii ''x''))])],
                                      JObj [(ascii ''name'', JNum (ascii ''7''))]])])
        (ascii ''storeName''))
   \<and> property
        (JObj [(ascii ''storeName'', JNum (ascii ''42'')),
                  (ascii ''date'', JStr (format_date sample_now)),
                  (ascii ''total'', JStr (ascii ''0'')),
                  (ascii ''categoryId'', JStr (ascii ''other'')),
                  (ascii ''items'',
                     JArr [JObj [(ascii ''name'', JObj [(ascii ''ja'', JStr (ascii ''x''))]),
                                 (ascii ''price'', JStr (ascii ''0'')),
                                 (ascii ''categoryId'', JStr (ascii ''other''))],
                           JObj [(ascii ''name'', JNum (ascii ''7'')),
                                 (ascii ''price'', JStr (ascii ''0'')),
                                 (ascii ''categoryId'', JStr (ascii ''other''))]])])
        (ascii ''storeName'') = JNum (ascii ''42'')
   \<and> \<not> is_text (JNum (ascii ''42''))
   \<and> filter named (items
        (JObj [(ascii ''storeName'', JNum (ascii ''42'')),
               (ascii ''items'', JArr [JObj [(ascii ''name'', JObj [(ascii ''ja'', JStr (ascii ''x''))])],
                                      JObj [(ascii ''name'', JNum (ascii ''7''))]])])) \<noteq> []
   \<and> (\<exists>ms. property
        (JObj [(ascii ''storeName'', JNum (ascii ''42'')),
                  (ascii ''date'', JStr (format_date sample_now)),
                  (ascii ''total'', JStr (ascii ''0'')),
                  (ascii ''categoryId'', JStr (ascii ''other'')),
                  (ascii ''items'',
                     JArr [JObj [(ascii ''name'', JObj [(ascii ''ja'', JStr (ascii ''x''))]),
                                 (ascii ''price'', JStr (ascii ''0'')),
                                 (ascii ''categoryId'', JStr (ascii ''other''))],
                           JObj [(ascii ''name'', JNum (ascii ''7'')),
                                 (ascii ''price'', JStr (ascii ''0'')),
                                 (ascii ''categoryId'', JStr (ascii ''other''))]])])
        (ascii ''items'') = JArr ms
      \<and> map (\<lambda>m. property m (ascii ''name'')) ms
          = [JObj [(ascii ''ja'', JStr (ascii ''x''))], JNum (ascii ''7'')])"
  (is "normalizeReceipt sample_now ?D = Inr ?R \<and> truthy (property ?D ?k)
       \<and> property ?R ?k = JNum (ascii ''42'') \<and> _ \<and> _ \<and> ?N")
proof -
  have a: "normalizeReceipt sample_now ?D = Inr ?R" by (simp add: eval_simps)
  have t: "truthy (property ?D ?k)" by (simp add: property_def ascii_def)
  have v: "property ?D ?k = JNum (ascii ''42'')" by (simp add: property_def ascii_def)
  from truthy_values_pass_through[of sample_now ?D ?R] a t
  have "property ?R ?k = property ?D ?k" by blast
  then have s: "property ?R ?k = JNum (ascii ''42'')" using v by simp
  have f: "filter named (items ?D)
      = [JObj [(ascii ''name'', JObj [(ascii ''ja'', JStr (ascii ''x''))])],
         JObj [(ascii ''name'', JNum (ascii ''7''))]]"
    by (simp add: items_def named_def property_def ascii_def)
  then have ne: "filter named (items ?D) \<noteq> []" by simp
  from truthy_values_pass_through[of sample_now ?D ?R] a ne
  have "\<exists>ms. property ?R (ascii ''items'') = JArr ms
      \<and> map (\<lambda>m. property m (ascii ''name'')) ms
          = map (\<lambda>item. property item (ascii ''name'')) (filter named (items ?D))"
    by blast
  then have n: ?N unfolding f by (simp add: property_def)
  show ?thesis using a t s ne n by (simp add: is_text_def)
qed

end
